theory Spec2Isabelle
  imports Main "HOL-Library.Monad_Syntax"
begin

section \<open>Python values used by framepython\<close>

text \<open>
  Python strings are modelled as HOL strings: a \<^typ>\<open>char\<close> stands for a code point below 256.
  The helpers below follow the built-ins that \<^verbatim>\<open>framepython.py\<close> calls on strings:
  \<^verbatim>\<open>str.endswith\<close>, \<^verbatim>\<open>str.split(",")\<close>, \<^verbatim>\<open>str.strip()\<close>, the truth value of a string and the
  decimal rendering of an integer inside an f-string.
\<close>

definition endswith :: "string \<Rightarrow> string \<Rightarrow> bool" where
  "endswith s suf = (length suf \<le> length s \<and> drop (length s - length suf) s = suf)"

text \<open>\<^verbatim>\<open>s.split(sep)\<close> with a one-character separator: the result is never empty.\<close>

fun split :: "char \<Rightarrow> string \<Rightarrow> string list" where
  "split sep [] = [[]]"
| "split sep (c # cs) =
     (if c = sep then [] # split sep cs
      else (case split sep cs of [] \<Rightarrow> [[c]] | x # xs \<Rightarrow> (c # x) # xs))"

text \<open>
  \<^verbatim>\<open>str.isspace\<close> on one code point below 256: TAB, LF, VT, FF, CR, the separators
  0x1C to 0x1F, space, NEL (0x85) and the no-break space (0xA0).
\<close>

definition is_space :: "char \<Rightarrow> bool" where
  "is_space c = (let n = (of_char c :: nat) in
     (9 \<le> n \<and> n \<le> 13) \<or> (28 \<le> n \<and> n \<le> 32) \<or> n = 133 \<or> n = 160)"

definition strip :: "string \<Rightarrow> string" where
  "strip s = rev (dropWhile is_space (rev (dropWhile is_space s)))"

text \<open>A string is true in a condition when it is not empty.\<close>

definition truthy :: "string \<Rightarrow> bool" where
  "truthy s = (s \<noteq> [])"

definition digit_char :: "nat \<Rightarrow> char" where
  "digit_char d = char_of (48 + d)"

text \<open>\<^verbatim>\<open>str(n)\<close> for a non-negative integer.\<close>

fun str_nat :: "nat \<Rightarrow> string" where
  "str_nat n = (if n < 10 then [digit_char n] else str_nat (n div 10) @ [digit_char (n mod 10)])"

declare str_nat.simps [simp del]

section \<open>Dictionaries with insertion order\<close>

text \<open>
  A Python \<^verbatim>\<open>dict\<close> keeps its keys in insertion order, and the order is visible in
  \<^verbatim>\<open>items()\<close> and in the JSON text. It is modelled as an association list with distinct
  keys; \<^verbatim>\<open>d[k] = v\<close> replaces the value of a present key in place and appends a new key.
\<close>

type_synonym pydict = "(string \<times> string) list"

fun dict_set :: "string \<Rightarrow> string \<Rightarrow> pydict \<Rightarrow> pydict" where
  "dict_set k v [] = [(k, v)]"
| "dict_set k v ((k', v') # d) = (if k' = k then (k, v) # d else (k', v') # dict_set k v d)"

definition dict_contains :: "string \<Rightarrow> pydict \<Rightarrow> bool" where
  "dict_contains k d = (k \<in> set (map fst d))"

definition dict_of_pairs :: "(string \<times> string) list \<Rightarrow> pydict" where
  "dict_of_pairs ps = foldl (\<lambda>d (k, v). dict_set k v d) [] ps"

text \<open>
  The registry: \<^verbatim>\<open>{"files": {alias: path, ...}, "dependencies": [name, ...]}\<close>.
\<close>

record registry =
  files :: pydict
  dependencies :: "string list"

section \<open>The JSON text of a registry\<close>

text \<open>
  \<^verbatim>\<open>save_registry\<close> writes with \<^verbatim>\<open>json.dump(data, f, indent=2)\<close> and \<^verbatim>\<open>load_registry\<close> reads with
  \<^verbatim>\<open>json.load(f)\<close>. Both belong to Python's standard library; they are modelled here on the
  documents the tool stores: an object with the key \<^verbatim>\<open>files\<close> (an object of strings)
  followed by the key \<^verbatim>\<open>dependencies\<close> (an array of strings).

  The encoder escapes as \<^verbatim>\<open>ensure_ascii=True\<close> does: the quote and the backslash with a
  backslash, BS, FF, LF, CR and TAB by their letters, every other code point outside
  0x20 to 0x7E as \<^verbatim>\<open>\u00xx\<close> in lower-case hexadecimal.
\<close>

definition hex_digit :: "nat \<Rightarrow> char" where
  "hex_digit d = (if d < 10 then char_of (48 + d) else char_of (87 + d))"

definition escape_char :: "char \<Rightarrow> string" where
  "escape_char c =
     (if c = CHR 0x22 then [CHR 0x5C, CHR 0x22]
      else if c = CHR 0x5C then [CHR 0x5C, CHR 0x5C]
      else if c = CHR 0x0A then [CHR 0x5C, CHR ''n'']
      else if c = CHR 0x0D then [CHR 0x5C, CHR ''r'']
      else if c = CHR 0x09 then [CHR 0x5C, CHR ''t'']
      else if c = CHR 0x08 then [CHR 0x5C, CHR ''b'']
      else if c = CHR 0x0C then [CHR 0x5C, CHR ''f'']
      else if 32 \<le> (of_char c :: nat) \<and> (of_char c :: nat) \<le> 126 then [c]
      else [CHR 0x5C, CHR ''u'', CHR ''0'', CHR ''0'',
            hex_digit ((of_char c :: nat) div 16), hex_digit ((of_char c :: nat) mod 16)])"

definition encode_string :: "string \<Rightarrow> string" where
  "encode_string s = CHR 0x22 # concat (map escape_char s) @ [CHR 0x22]"

text \<open>With \<^verbatim>\<open>indent=2\<close> every item starts on a new line, indented by two spaces per level.\<close>

definition newline_indent :: "nat \<Rightarrow> string" where
  "newline_indent level = CHR 0x0A # replicate (2 * level) (CHR '' '')"

text \<open>
  The items of a non-empty array at nesting level \<open>level\<close>, after the first line break:
  items are separated by a comma and a line break, and the closing bracket is on a line
  of its own, one level out.
\<close>

fun encode_items :: "nat \<Rightarrow> string list \<Rightarrow> string" where
  "encode_items level [] = []"
| "encode_items level [x] = encode_string x @ newline_indent (level - 1) @ '']''"
| "encode_items level (x # xs) =
     encode_string x @ '','' @ newline_indent level @ encode_items level xs"

definition encode_list :: "nat \<Rightarrow> string list \<Rightarrow> string" where
  "encode_list level xs =
     (if xs = [] then ''[]'' else ''['' @ newline_indent level @ encode_items level xs)"

fun encode_pairs :: "nat \<Rightarrow> pydict \<Rightarrow> string" where
  "encode_pairs level [] = []"
| "encode_pairs level [(k, v)] =
     encode_string k @ '': '' @ encode_string v @ newline_indent (level - 1) @ ''}''"
| "encode_pairs level ((k, v) # d) =
     encode_string k @ '': '' @ encode_string v @ '','' @ newline_indent level
       @ encode_pairs level d"

definition encode_dict :: "nat \<Rightarrow> pydict \<Rightarrow> string" where
  "encode_dict level d =
     (if d = [] then ''{}'' else ''{'' @ newline_indent level @ encode_pairs level d)"

text \<open>\<^verbatim>\<open>json.dumps(registry, indent=2)\<close>.\<close>

definition json_dumps :: "registry \<Rightarrow> string" where
  "json_dumps r =
     ''{'' @ newline_indent 1
       @ encode_string ''files'' @ '': '' @ encode_dict 2 (files r) @ '',''
       @ newline_indent 1
       @ encode_string ''dependencies'' @ '': '' @ encode_list 2 (dependencies r)
       @ newline_indent 0 @ ''}''"

text \<open>
  The decoder. \<^verbatim>\<open>scanstring\<close> reads a string after its opening quote up to the closing
  quote, as the strict decoder does: a raw control character is an error, a backslash
  introduces one of the escapes \<^verbatim>\<open>" \ / b f n r t\<close> or \<^verbatim>\<open>uXXXX\<close> with four hexadecimal
  digits. An escape that denotes a code point from 256 on has no value in this model and
  is reported as a failure.
\<close>

definition hex_value :: "char \<Rightarrow> nat option" where
  "hex_value c = (let n = (of_char c :: nat) in
     if 48 \<le> n \<and> n \<le> 57 then Some (n - 48)
     else if 97 \<le> n \<and> n \<le> 102 then Some (n - 87)
     else if 65 \<le> n \<and> n \<le> 70 then Some (n - 55)
     else None)"

definition decode_uXXXX :: "char \<Rightarrow> char \<Rightarrow> char \<Rightarrow> char \<Rightarrow> char option" where
  "decode_uXXXX a b c d =
     (case (hex_value a, hex_value b, hex_value c, hex_value d) of
        (Some x3, Some x2, Some x1, Some x0) \<Rightarrow>
          (let n = ((x3 * 16 + x2) * 16 + x1) * 16 + x0
           in if n < 256 then Some (char_of n) else None)
      | _ \<Rightarrow> None)"

definition unescape :: "char \<Rightarrow> char option" where
  "unescape e =
     (if e = CHR 0x22 then Some (CHR 0x22)
      else if e = CHR 0x5C then Some (CHR 0x5C)
      else if e = CHR ''/'' then Some (CHR ''/'')
      else if e = CHR ''b'' then Some (CHR 0x08)
      else if e = CHR ''f'' then Some (CHR 0x0C)
      else if e = CHR ''n'' then Some (CHR 0x0A)
      else if e = CHR ''r'' then Some (CHR 0x0D)
      else if e = CHR ''t'' then Some (CHR 0x09)
      else None)"

definition cons_result :: "char \<Rightarrow> (string \<times> string) option \<Rightarrow> (string \<times> string) option" where
  "cons_result c r = (case r of None \<Rightarrow> None | Some (s, rest) \<Rightarrow> Some (c # s, rest))"

fun scanstring :: "string \<Rightarrow> (string \<times> string) option" where
  "scanstring [] = None"
| "scanstring (c # cs) =
     (if c = CHR 0x22 then Some ([], cs)
      else if c = CHR 0x5C then
        (case cs of
           [] \<Rightarrow> None
         | e # r \<Rightarrow>
             if e = CHR ''u'' then
               (case r of
                  a # b # c' # d # r' \<Rightarrow>
                    (case decode_uXXXX a b c' d of
                       None \<Rightarrow> None
                     | Some ch \<Rightarrow> cons_result ch (scanstring r'))
                | _ \<Rightarrow> None)
             else
               (case unescape e of
                  None \<Rightarrow> None
                | Some ch \<Rightarrow> cons_result ch (scanstring r)))
      else if (of_char c :: nat) < 32 then None
      else cons_result c (scanstring cs))"

text \<open>JSON white space between tokens: space, TAB, LF and CR.\<close>

definition is_json_ws :: "char \<Rightarrow> bool" where
  "is_json_ws c = (c = CHR '' '' \<or> c = CHR 0x09 \<or> c = CHR 0x0A \<or> c = CHR 0x0D)"

definition skip_ws :: "string \<Rightarrow> string" where
  "skip_ws s = dropWhile is_json_ws s"

text \<open>A string value: white space, the opening quote, then \<^const>\<open>scanstring\<close>.\<close>

definition parse_string :: "string \<Rightarrow> (string \<times> string) option" where
  "parse_string s =
     (case skip_ws s of
        [] \<Rightarrow> None
      | c # cs \<Rightarrow> if c = CHR 0x22 then scanstring cs else None)"

text \<open>One expected punctuation character, after white space.\<close>

definition expect :: "char \<Rightarrow> string \<Rightarrow> string option" where
  "expect ch s =
     (case skip_ws s of
        [] \<Rightarrow> None
      | c # cs \<Rightarrow> if c = ch then Some cs else None)"

lemma scanstring_shorter: "scanstring s = Some (x, r) \<Longrightarrow> length r < length s"
proof (induction s arbitrary: x r rule: scanstring.induct)
  case 1
  then show ?case by simp
next
  case (2 c cs)
  then show ?case
    by (fastforce simp: cons_result_def split: if_splits list.splits option.splits)
qed

lemma skip_ws_length: "length (skip_ws s) \<le> length s"
  by (simp add: skip_ws_def length_dropWhile_le)

lemma parse_string_shorter: "parse_string s = Some (x, r) \<Longrightarrow> length r < length s"
proof -
  assume a: "parse_string s = Some (x, r)"
  then obtain cs where c: "skip_ws s = CHR 0x22 # cs" and s: "scanstring cs = Some (x, r)"
    by (auto simp: parse_string_def split: list.splits if_splits)
  have "length r < length cs" using s by (rule scanstring_shorter)
  moreover have "length (CHR 0x22 # cs) \<le> length s" using skip_ws_length [of s] c by simp
  ultimately show ?thesis by simp
qed

lemma expect_shorter: "expect ch s = Some r \<Longrightarrow> length r < length s"
proof -
  assume a: "expect ch s = Some r"
  then have c: "skip_ws s = ch # r"
    by (auto simp: expect_def split: list.splits if_splits)
  show ?thesis using skip_ws_length [of s] c by simp
qed

text \<open>
  The items of an array after its opening bracket, when the array is not empty: a string,
  then a comma and the remaining items, or the closing bracket.
\<close>

function parse_items :: "string \<Rightarrow> (string list \<times> string) option" where
  "parse_items s =
     (case parse_string s of
        None \<Rightarrow> None
      | Some (x, r) \<Rightarrow>
          (case skip_ws r of
             [] \<Rightarrow> None
           | c # r' \<Rightarrow>
               if c = CHR '']'' then Some ([x], r')
               else if c = CHR '','' then
                 (case parse_items r' of
                    None \<Rightarrow> None
                  | Some (xs, r'') \<Rightarrow> Some (x # xs, r''))
               else None))"
  by pat_completeness auto
termination
proof (relation "measure length")
  show "wf (measure length)" by simp
next
  fix s :: string and p x r c r'
  assume "parse_string s = Some p" and "(x, r) = p" and "skip_ws r = c # r'"
  then have "length r < length s" and "length (c # r') \<le> length r"
    using parse_string_shorter [of s x r] skip_ws_length [of r] by auto
  then show "(r', s) \<in> measure length" by simp
qed

declare parse_items.simps [simp del]

definition parse_array :: "string \<Rightarrow> (string list \<times> string) option" where
  "parse_array s =
     (case expect (CHR ''['') s of
        None \<Rightarrow> None
      | Some r \<Rightarrow>
          (case skip_ws r of
             [] \<Rightarrow> None
           | c # r' \<Rightarrow> if c = CHR '']'' then Some ([], r') else parse_items r))"

text \<open>The members of an object after its opening brace, when the object is not empty.\<close>

function parse_pairs :: "string \<Rightarrow> ((string \<times> string) list \<times> string) option" where
  "parse_pairs s =
     (case parse_string s of
        None \<Rightarrow> None
      | Some (k, r) \<Rightarrow>
          (case expect (CHR '':'') r of
             None \<Rightarrow> None
           | Some r1 \<Rightarrow>
               (case parse_string r1 of
                  None \<Rightarrow> None
                | Some (v, r2) \<Rightarrow>
                    (case skip_ws r2 of
                       [] \<Rightarrow> None
                     | c # r3 \<Rightarrow>
                         if c = CHR ''}'' then Some ([(k, v)], r3)
                         else if c = CHR '','' then
                           (case parse_pairs r3 of
                              None \<Rightarrow> None
                            | Some (ps, r4) \<Rightarrow> Some ((k, v) # ps, r4))
                         else None))))"
  by pat_completeness auto
termination
proof (relation "measure length")
  show "wf (measure length)" by simp
next
  fix s :: string and p k r r1 q v r2 c r3
  assume "parse_string s = Some p" and "(k, r) = p" and "expect (CHR '':'') r = Some r1"
    and "parse_string r1 = Some q" and "(v, r2) = q" and "skip_ws r2 = c # r3"
  then have "length r < length s" and "length r1 < length r" and "length r2 < length r1"
    and "length (c # r3) \<le> length r2"
    using parse_string_shorter [of s k r] expect_shorter [of "CHR '':''" r r1]
      parse_string_shorter [of r1 v r2] skip_ws_length [of r2] by auto
  then show "(r3, s) \<in> measure length" by simp
qed

declare parse_pairs.simps [simp del]

text \<open>An object of strings becomes a dictionary: a repeated key keeps its last value.\<close>

definition parse_dict :: "string \<Rightarrow> (pydict \<times> string) option" where
  "parse_dict s =
     (case expect (CHR ''{'') s of
        None \<Rightarrow> None
      | Some r \<Rightarrow>
          (case skip_ws r of
             [] \<Rightarrow> None
           | c # r' \<Rightarrow>
               if c = CHR ''}'' then Some ([], r')
               else (case parse_pairs r of
                       None \<Rightarrow> None
                     | Some (ps, r'') \<Rightarrow> Some (dict_of_pairs ps, r''))))"

text \<open>
  \<^verbatim>\<open>json.loads\<close> on a registry document; \<open>None\<close> stands for the decoder's error and for
  every document of another shape.
\<close>

definition json_loads :: "string \<Rightarrow> registry option" where
  "json_loads s =
     do {
       s1 \<leftarrow> expect (CHR ''{'') s;
       (k1, s2) \<leftarrow> parse_string s1;
       s3 \<leftarrow> expect (CHR '':'') s2;
       (fs, s4) \<leftarrow> parse_dict s3;
       s5 \<leftarrow> expect (CHR '','') s4;
       (k2, s6) \<leftarrow> parse_string s5;
       s7 \<leftarrow> expect (CHR '':'') s6;
       (ds, s8) \<leftarrow> parse_array s7;
       s9 \<leftarrow> expect (CHR ''}'') s8;
       if k1 = ''files'' \<and> k2 = ''dependencies'' \<and> skip_ws s9 = []
       then Some \<lparr>files = fs, dependencies = ds\<rparr> else None
     }"

section \<open>The world of the tool\<close>

text \<open>
  Exceptions are values. \<open>SystemExit\<close> derives from \<^verbatim>\<open>BaseException\<close> only, so a handler
  \<^verbatim>\<open>except Exception\<close> does not catch it; \<open>ImportError\<close> (with its subclass
  \<^verbatim>\<open>ModuleNotFoundError\<close>) and \<open>CalledProcessError\<close> are the two classes the code depends on;
  \<open>Error name\<close> is any other class that derives from \<^verbatim>\<open>Exception\<close>.
\<close>

datatype exn =
    SystemExit int
  | ImportError
  | CalledProcessError int
  | Error string

fun is_Exception :: "exn \<Rightarrow> bool" where
  "is_Exception (SystemExit code) = False"
| "is_Exception e = True"

text \<open>
  What the tool does to the outside, in the order it happens: lines printed, the prompt
  of \<^verbatim>\<open>input\<close>, imports attempted, subprocesses started with their argument lists
  (\<^verbatim>\<open>subprocess.check_call\<close> and \<^verbatim>\<open>subprocess.run\<close>), files run by \<^verbatim>\<open>runpy.run_path\<close>, and
  the help text of the argument parser.
\<close>

datatype event =
    Print string
  | Prompt string
  | Import string
  | CheckCall "string list"
  | Run "string list"
  | RunPath string
  | PrintHelp

text \<open>
  The state the tool changes: the content of \<^verbatim>\<open>.framepython.json\<close> in the working directory
  (\<open>None\<close> when the file does not exist) and the events so far. The file is a regular,
  readable and writable file; nothing but \<^verbatim>\<open>save_registry\<close> writes it.
\<close>

record world =
  registry_file :: "string option"
  events :: "event list"

text \<open>
  The answers of the outside. An import, a subprocess and a target may answer differently
  each time, so they are functions of the events so far. \<open>listdir\<close> gives \<open>None\<close>
  where \<^verbatim>\<open>os.listdir\<close> raises \<^verbatim>\<open>OSError\<close>; \<open>stdin_line\<close> is \<open>None\<close> where \<^verbatim>\<open>input\<close> raises
  \<^verbatim>\<open>EOFError\<close>; \<open>import_module\<close> and \<open>run_path\<close> give the exception raised, if any;
  \<open>returncode\<close> is the exit status of a subprocess; \<open>format_exc\<close> is the text of
  \<^verbatim>\<open>traceback.format_exc()\<close> for the exception being handled.
\<close>

record env =
  executable :: string
  listdir :: "string \<Rightarrow> string list option"
  stdin_line :: "string option"
  import_module :: "event list \<Rightarrow> string \<Rightarrow> exn option"
  returncode :: "event list \<Rightarrow> string list \<Rightarrow> int"
  run_path :: "event list \<Rightarrow> string \<Rightarrow> exn option"
  format_exc :: "exn \<Rightarrow> string"

definition log :: "event \<Rightarrow> world \<Rightarrow> world" where
  "log e w = w\<lparr>events := events w @ [e]\<rparr>"

text \<open>
  The exit status of the process when \<^verbatim>\<open>main\<close> ends: 0 after a normal return, the low eight
  bits of the code of \<^verbatim>\<open>sys.exit\<close> (\<^verbatim>\<open>sys.exit(256)\<close> gives 0, \<^verbatim>\<open>sys.exit(-1)\<close> gives 255), and 1
  when any other exception is never caught.
\<close>

fun exit_status :: "exn + unit \<Rightarrow> int" where
  "exit_status (Inr u) = 0"
| "exit_status (Inl (SystemExit code)) = code mod 256"
| "exit_status (Inl e) = 1"

section \<open>The functions of framepython.py\<close>

definition normalize_folder :: "string \<Rightarrow> string" where
  "normalize_folder folder = (if folder = ''current'' then ''.'' else folder)"

text \<open>
  \<^verbatim>\<open>load_registry\<close> reads a file that holds a registry document. Python decodes every JSON
  document and goes on with whatever it holds; a file of another shape is outside this
  model (it is given the decoder's error here), and the theorems that read the file
  state that it holds a registry document.
\<close>

definition load_registry :: "world \<Rightarrow> (exn + registry) \<times> world" where
  "load_registry w =
     (case registry_file w of
        None \<Rightarrow>
          (Inl (SystemExit 1),
           log (Print ''[framepython] No project registered yet. Run --register first.'') w)
      | Some content \<Rightarrow>
          (case json_loads content of
             None \<Rightarrow> (Inl (Error ''JSONDecodeError''), w)
           | Some reg \<Rightarrow> (Inr reg, w)))"

definition save_registry :: "registry \<Rightarrow> world \<Rightarrow> world" where
  "save_registry data w = w\<lparr>registry_file := Some (json_dumps data)\<rparr>"

fun ensure_installed :: "env \<Rightarrow> string list \<Rightarrow> world \<Rightarrow> (exn + unit) \<times> world" where
  "ensure_installed E [] w = (Inr (), w)"
| "ensure_installed E (dep # deps) w =
     (case import_module E (events w) dep of
        None \<Rightarrow> ensure_installed E deps (log (Import dep) w)
      | Some e \<Rightarrow>
          if e = ImportError then
            (let w1 = log (Print (''[framepython] Installing '' @ dep @ ''...''))
                        (log (Import dep) w);
                 argv = [executable E, ''-m'', ''pip'', ''install'', dep];
                 code = returncode E (events w1) argv;
                 w2 = log (CheckCall argv) w1
             in if code = 0 then ensure_installed E deps w2
                else (Inl (CalledProcessError code), w2))
          else (Inl e, log (Import dep) w))"

text \<open>
  The loop \<^verbatim>\<open>for i, f in enumerate(py_files)\<close> of \<^verbatim>\<open>register\<close>, from index \<open>i\<close> on.
\<close>

fun assign_aliases :: "nat \<Rightarrow> string list \<Rightarrow> pydict \<Rightarrow> pydict" where
  "assign_aliases i [] d = d"
| "assign_aliases i (f # fs) d =
     assign_aliases (i + 1) fs
       (dict_set (if i = 0 then ''.FILE'' else ''.FILE'' @ str_nat (i + 1)) f d)"

definition register :: "env \<Rightarrow> string \<Rightarrow> world \<Rightarrow> (exn + unit) \<times> world" where
  "register E folder w =
     (case listdir E (normalize_folder folder) of
        None \<Rightarrow> (Inl (Error ''OSError''), w)
      | Some entries \<Rightarrow>
          (let py_files = filter (\<lambda>f. endswith f ''.py'') entries;
               fs = assign_aliases 0 py_files [];
               w1 = log (Prompt ''Enter libraries (comma+space separated): '') w
           in case stdin_line E of
                None \<Rightarrow> (Inl (Error ''EOFError''), w1)
              | Some libs \<Rightarrow>
                  (let deps = map strip (filter (\<lambda>lib. truthy (strip lib)) (split (CHR '','') libs));
                       registry = \<lparr>files = fs, dependencies = deps\<rparr>
                   in case ensure_installed E deps w1 of
                        (Inl e, w2) \<Rightarrow> (Inl e, w2)
                      | (Inr u, w2) \<Rightarrow>
                          (Inr (),
                           log (Print ''[framepython] Project registered!'')
                             (save_registry registry w2)))))"

definition list_files :: "world \<Rightarrow> (exn + unit) \<times> world" where
  "list_files w =
     (case load_registry w of
        (Inl e, w1) \<Rightarrow> (Inl e, w1)
      | (Inr reg, w1) \<Rightarrow>
          (Inr (),
           foldl (\<lambda>w' (key, val). log (Print (''  '' @ key @ '' -> '' @ val)) w')
             (log (Print ''[framepython] Registered files:'') w1) (files reg)))"

text \<open>
  The loop of \<^verbatim>\<open>debug\<close> over its targets. The handler is \<^verbatim>\<open>except Exception\<close>: an exception
  of another kind leaves the loop and the function.
\<close>

fun run_targets :: "env \<Rightarrow> (string \<times> string) list \<Rightarrow> world \<Rightarrow> (exn + unit) \<times> world" where
  "run_targets E [] w = (Inr (), w)"
| "run_targets E ((dot, filepath) # targets) w =
     (let w1 = log (Print (CHR 0x0A # ''[framepython] Debugging '' @ dot @ '' ('' @ filepath @ '')'')) w;
          w2 = log (RunPath filepath) w1
      in case run_path E (events w1) filepath of
           None \<Rightarrow> run_targets E targets w2
         | Some e \<Rightarrow>
             if is_Exception e then
               run_targets E targets
                 (log (Print ''---------------------------'')
                    (log (Print (format_exc E e))
                       (log (Print ''----- ERROR TRACEBACK -----'') w2)))
             else (Inl e, w2))"

definition lookup :: "pydict \<Rightarrow> string \<Rightarrow> string" where
  "lookup d k = (case map_of d k of Some v \<Rightarrow> v | None \<Rightarrow> [])"

text \<open>
  \<^verbatim>\<open>debug(dotfile=None)\<close>: the argument is \<open>None\<close> or a string, and \<^verbatim>\<open>if dotfile:\<close> holds for a
  string that is not empty.
\<close>

definition debug :: "env \<Rightarrow> string option \<Rightarrow> world \<Rightarrow> (exn + unit) \<times> world" where
  "debug E dotfile w =
     (case load_registry w of
        (Inl e, w1) \<Rightarrow> (Inl e, w1)
      | (Inr reg, w1) \<Rightarrow>
          (case dotfile of
             None \<Rightarrow> run_targets E (files reg) w1
           | Some d \<Rightarrow>
               if truthy d then
                 (if \<not> dict_contains d (files reg)
                  then (Inr (), log (Print (''[framepython] '' @ d @ '' not registered.'')) w1)
                  else run_targets E [(d, lookup (files reg) d)] w1)
               else run_targets E (files reg) w1))"

definition compile_file :: "env \<Rightarrow> string \<Rightarrow> world \<Rightarrow> (exn + unit) \<times> world" where
  "compile_file E dotfile w =
     (case load_registry w of
        (Inl e, w1) \<Rightarrow> (Inl e, w1)
      | (Inr reg, w1) \<Rightarrow>
          if \<not> dict_contains dotfile (files reg)
          then (Inr (), log (Print (''[framepython] '' @ dotfile @ '' not registered.'')) w1)
          else
            (let filepath = lookup (files reg) dotfile;
                 w2 = log (Print (''[framepython] Compiling '' @ dotfile @ '' ('' @ filepath @ '')...'')) w1
             in (Inr (),
                 log (Run [executable E, ''-m'', ''PyInstaller'', ''--onefile'', filepath]) w2)))"

text \<open>
  The namespace that \<^verbatim>\<open>parser.parse_args()\<close> returns: \<^verbatim>\<open>--register\<close> and \<^verbatim>\<open>--list\<close> are flags,
  \<^verbatim>\<open>--folder\<close> and \<^verbatim>\<open>--compile\<close> are \<open>None\<close> or a string, and \<^verbatim>\<open>--debug\<close> (\<^verbatim>\<open>nargs="?", const=True\<close>)
  is \<open>None\<close> when absent, \<open>True\<close> when given without a value, and the string given
  otherwise.
\<close>

datatype debug_arg = DebugAbsent | DebugTrue | DebugAlias string

record args =
  arg_register :: bool
  arg_folder :: "string option"
  arg_list :: bool
  arg_debug :: debug_arg
  arg_compile :: "string option"

text \<open>The truth value of an optional string and of \<^verbatim>\<open>args.debug\<close>.\<close>

fun truthy_opt :: "string option \<Rightarrow> bool" where
  "truthy_opt None = False"
| "truthy_opt (Some s) = truthy s"

fun truthy_debug :: "debug_arg \<Rightarrow> bool" where
  "truthy_debug DebugAbsent = False"
| "truthy_debug DebugTrue = True"
| "truthy_debug (DebugAlias s) = truthy s"

definition main :: "env \<Rightarrow> args \<Rightarrow> world \<Rightarrow> (exn + unit) \<times> world" where
  "main E a w =
     (if arg_register a then
        (case arg_folder a of
           None \<Rightarrow> (Inr (), log (Print ''Usage: framepython --register --folder current'') w)
         | Some folder \<Rightarrow>
             if \<not> truthy folder
             then (Inr (), log (Print ''Usage: framepython --register --folder current'') w)
             else register E folder w)
      else if arg_list a then list_files w
      else if truthy_debug (arg_debug a) then
        (case arg_debug a of
           DebugTrue \<Rightarrow> debug E None w
         | DebugAlias s \<Rightarrow> debug E (Some s) w
         | DebugAbsent \<Rightarrow> debug E None w)
      else if truthy_opt (arg_compile a) then
        (case arg_compile a of
           Some s \<Rightarrow> compile_file E s w
         | None \<Rightarrow> (Inr (), log PrintHelp w))
      else (Inr (), log PrintHelp w))"

section \<open>Definitions used to state the claims\<close>

text \<open>
  The alias of the \<open>k\<close>-th file of a listing, counted from 1, as the specification words it:
  the first file gets \<^verbatim>\<open>.FILE\<close>, the \<open>k\<close>-th file for \<open>k \<ge> 2\<close> gets \<^verbatim>\<open>.FILE\<close> followed by \<open>k\<close>.
\<close>

definition spec_alias :: "nat \<Rightarrow> string" where
  "spec_alias k = (if k = 1 then ''.FILE'' else ''.FILE'' @ str_nat k)"

text \<open>Reading a decimal numeral back, to show that \<^const>\<open>str_nat\<close> is injective.\<close>

definition digit_value :: "char \<Rightarrow> nat" where
  "digit_value c = (of_char c :: nat) - 48"

definition nat_of_digits :: "string \<Rightarrow> nat" where
  "nat_of_digits s = foldl (\<lambda>a c. 10 * a + digit_value c) 0 s"

text \<open>
  The files that \<^verbatim>\<open>runpy.run_path\<close> was called on, in order: the targets attempted.
\<close>

fun ran :: "event \<Rightarrow> string list" where
  "ran (RunPath f) = [f]"
| "ran e = []"

definition attempted :: "event list \<Rightarrow> string list" where
  "attempted evs = concat (map ran evs)"

text \<open>
  What \<^verbatim>\<open>debug\<close> does for one target after the events \<open>h\<close>, as the specification words it:
  the line that announces the target, the run, and, when the run raises an exception \<open>e\<close>
  that derives from \<^verbatim>\<open>Exception\<close>, the traceback between the two delimiter banners.
\<close>

definition debug_header :: "string \<times> string \<Rightarrow> event" where
  "debug_header t =
     Print (CHR 0x0A # ''[framepython] Debugging '' @ fst t @ '' ('' @ snd t @ '')'')"

definition target_events :: "env \<Rightarrow> event list \<Rightarrow> string \<times> string \<Rightarrow> event list" where
  "target_events E h t =
     [debug_header t, RunPath (snd t)]
       @ (case run_path E (h @ [debug_header t]) (snd t) of
            None \<Rightarrow> []
          | Some e \<Rightarrow>
              if is_Exception e
              then [Print ''----- ERROR TRACEBACK -----'', Print (format_exc E e),
                    Print ''---------------------------'']
              else [])"

text \<open>
  The target \<open>t\<close>, run after the events \<open>h\<close>, raises an exception that does not derive from
  \<^verbatim>\<open>Exception\<close>; and: none of the targets \<open>ts\<close>, run one after the other from the events \<open>h\<close>
  on, does so.
\<close>

definition escapes :: "env \<Rightarrow> event list \<Rightarrow> string \<times> string \<Rightarrow> bool" where
  "escapes E h t =
     (case run_path E (h @ [debug_header t]) (snd t) of
        None \<Rightarrow> False
      | Some e \<Rightarrow> \<not> is_Exception e)"

fun all_caught :: "env \<Rightarrow> event list \<Rightarrow> (string \<times> string) list \<Rightarrow> bool" where
  "all_caught E h [] = True"
| "all_caught E h (t # ts) = (\<not> escapes E h t \<and> all_caught E (h @ target_events E h t) ts)"

text \<open>
  The actions of the command line, and the one chosen by first match: \<^verbatim>\<open>--register\<close> (a
  usage line when \<^verbatim>\<open>--folder\<close> is missing or empty), \<^verbatim>\<open>--list\<close>, \<^verbatim>\<open>--debug\<close> without a value
  or with a non-empty alias, \<^verbatim>\<open>--compile\<close> with a non-empty alias, and the help text
  otherwise.
\<close>

datatype action =
    DoRegister string
  | DoUsage
  | DoList
  | DoDebugAll
  | DoDebug string
  | DoCompile string
  | DoHelp

definition compile_or_help :: "args \<Rightarrow> action" where
  "compile_or_help a =
     (case arg_compile a of
        None \<Rightarrow> DoHelp
      | Some s \<Rightarrow> if s = [] then DoHelp else DoCompile s)"

definition select_action :: "args \<Rightarrow> action" where
  "select_action a =
     (if arg_register a then
        (case arg_folder a of
           None \<Rightarrow> DoUsage
         | Some folder \<Rightarrow> if folder = [] then DoUsage else DoRegister folder)
      else if arg_list a then DoList
      else
        (case arg_debug a of
           DebugTrue \<Rightarrow> DoDebugAll
         | DebugAlias s \<Rightarrow> if s = [] then compile_or_help a else DoDebug s
         | DebugAbsent \<Rightarrow> compile_or_help a))"

fun perform :: "env \<Rightarrow> action \<Rightarrow> world \<Rightarrow> (exn + unit) \<times> world" where
  "perform E (DoRegister folder) w = register E folder w"
| "perform E DoUsage w = (Inr (), log (Print ''Usage: framepython --register --folder current'') w)"
| "perform E DoList w = list_files w"
| "perform E DoDebugAll w = debug E None w"
| "perform E (DoDebug s) w = debug E (Some s) w"
| "perform E (DoCompile s) w = compile_file E s w"
| "perform E DoHelp w = (Inr (), log PrintHelp w)"

text \<open>The argument list of the \<^verbatim>\<open>pip install\<close> that \<^verbatim>\<open>ensure_installed\<close> starts for \<open>dep\<close>.\<close>

definition pip_argv :: "env \<Rightarrow> string \<Rightarrow> string list" where
  "pip_argv E dep = [executable E, ''-m'', ''pip'', ''install'', dep]"

subsection \<open>Concrete inputs\<close>

definition example_registry :: registry where
  "example_registry =
     \<lparr>files = [(''.FILE'', ''a.py''), (''.FILE2'', ''b.py'')], dependencies = [''requests'']\<rparr>"

definition empty_world :: world where
  "empty_world = \<lparr>registry_file = None, events = []\<rparr>"

text \<open>
  Two environments for the folder \<^verbatim>\<open>.\<close>: in the first the only dependency cannot be
  imported and \<^verbatim>\<open>pip install\<close> exits with status 1; in the second \<^verbatim>\<open>requests\<close> imports and
  \<^verbatim>\<open>numpy\<close> is installed by a \<^verbatim>\<open>pip\<close> that exits with status 0.
\<close>

definition env_pip_fails :: env where
  "env_pip_fails =
     \<lparr>executable = ''python3'',
      listdir = (\<lambda>folder. if folder = ''.'' then Some [''a.py'', ''notes.txt''] else None),
      stdin_line = Some ''nosuchpkg'',
      import_module = (\<lambda>h dep. Some ImportError),
      returncode = (\<lambda>h argv. 1),
      run_path = (\<lambda>h f. None),
      format_exc = (\<lambda>e. ''Traceback (most recent call last): ...'')\<rparr>"

definition env_ok :: env where
  "env_ok =
     \<lparr>executable = ''python3'',
      listdir = (\<lambda>folder. if folder = ''.'' then Some [''a.py'', ''notes.txt'', ''b.py''] else None),
      stdin_line = Some ''requests, ,numpy '',
      import_module = (\<lambda>h dep. if dep = ''numpy'' then Some ImportError else None),
      returncode = (\<lambda>h argv. 0),
      run_path = (\<lambda>h f. None),
      format_exc = (\<lambda>e. ''Traceback (most recent call last): ...'')\<rparr>"

text \<open>A world in which \<^const>\<open>example_registry\<close> has been saved.\<close>

definition world_registered :: world where
  "world_registered = save_registry example_registry empty_world"

text \<open>
  Two environments in which the target \<^verbatim>\<open>a.py\<close> fails: by raising \<^verbatim>\<open>ValueError\<close>, and by
  calling \<^verbatim>\<open>sys.exit(3)\<close>.
\<close>

definition env_target_raises :: env where
  "env_target_raises =
     \<lparr>executable = ''python3'',
      listdir = (\<lambda>folder. None),
      stdin_line = None,
      import_module = (\<lambda>h dep. None),
      returncode = (\<lambda>h argv. 0),
      run_path = (\<lambda>h f. if f = ''a.py'' then Some (Error ''ValueError'') else None),
      format_exc = (\<lambda>e. ''Traceback (most recent call last): ...'')\<rparr>"

definition env_target_exits :: env where
  "env_target_exits =
     \<lparr>executable = ''python3'',
      listdir = (\<lambda>folder. None),
      stdin_line = None,
      import_module = (\<lambda>h dep. None),
      returncode = (\<lambda>h argv. 0),
      run_path = (\<lambda>h f. if f = ''a.py'' then Some (SystemExit 3) else None),
      format_exc = (\<lambda>e. ''Traceback (most recent call last): ...'')\<rparr>"

text \<open>
  An environment in which \<^verbatim>\<open>a.py\<close> raises \<^verbatim>\<open>ValueError\<close> and \<^verbatim>\<open>b.py\<close> calls \<^verbatim>\<open>sys.exit(3)\<close>.
\<close>

definition env_raise_then_exit :: env where
  "env_raise_then_exit =
     \<lparr>executable = ''python3'',
      listdir = (\<lambda>folder. None),
      stdin_line = None,
      import_module = (\<lambda>h dep. None),
      returncode = (\<lambda>h argv. 0),
      run_path = (\<lambda>h f. if f = ''a.py'' then Some (Error ''ValueError'') else Some (SystemExit 3)),
      format_exc = (\<lambda>e. ''Traceback (most recent call last): ...'')\<rparr>"

text \<open>
  An environment in which no step of the tool fails outside a target: every folder can
  be listed, the input line is there, every import succeeds, every subprocess exits with
  0, and a target raises \<^verbatim>\<open>ValueError\<close>.
\<close>

definition env_quiet :: env where
  "env_quiet =
     \<lparr>executable = ''python3'',
      listdir = (\<lambda>folder. Some [''a.py'']),
      stdin_line = Some ''requests'',
      import_module = (\<lambda>h dep. None),
      returncode = (\<lambda>h argv. 0),
      run_path = (\<lambda>h f. Some (Error ''ValueError'')),
      format_exc = (\<lambda>e. ''Traceback (most recent call last): ...'')\<rparr>"

text \<open>
  Parsed command lines: \<^verbatim>\<open>--register --folder current\<close>, \<^verbatim>\<open>--list\<close>, \<^verbatim>\<open>--debug ""\<close>,
  \<^verbatim>\<open>--register\<close> alone, and \<^verbatim>\<open>--debug .FILE2 --compile .FILE\<close>.
\<close>

definition args_register_current :: args where
  "args_register_current =
     \<lparr>arg_register = True, arg_folder = Some ''current'', arg_list = False,
      arg_debug = DebugAbsent, arg_compile = None\<rparr>"

definition args_list :: args where
  "args_list =
     \<lparr>arg_register = False, arg_folder = None, arg_list = True,
      arg_debug = DebugAbsent, arg_compile = None\<rparr>"

definition args_debug_empty :: args where
  "args_debug_empty =
     \<lparr>arg_register = False, arg_folder = None, arg_list = False,
      arg_debug = DebugAlias [], arg_compile = None\<rparr>"

definition args_register_only :: args where
  "args_register_only =
     \<lparr>arg_register = True, arg_folder = None, arg_list = False,
      arg_debug = DebugAbsent, arg_compile = None\<rparr>"

definition args_debug_alias :: args where
  "args_debug_alias =
     \<lparr>arg_register = False, arg_folder = None, arg_list = False,
      arg_debug = DebugAlias ''.FILE2'', arg_compile = Some ''.FILE''\<rparr>"

section \<open>Decoding what the encoder wrote\<close>

lemma hex_value_digit: "d < 16 \<Longrightarrow> hex_value (hex_digit d) = Some d"
  by (auto simp: hex_value_def hex_digit_def Let_def)

lemma decode_own_escape:
  "decode_uXXXX (CHR ''0'') (CHR ''0'') (hex_digit ((of_char c :: nat) div 16)) (hex_digit ((of_char c :: nat) mod 16)) = Some c"
proof -
  let ?n = "of_char c :: nat"
  have lt: "?n < 256" by simp
  then have a: "?n div 16 < 16" by arith
  have b: "?n mod 16 < 16" by simp
  have z: "hex_value (CHR ''0'') = Some 0" by (simp add: hex_value_def)
  show ?thesis
    using lt by (simp add: decode_uXXXX_def z hex_value_digit [OF a] hex_value_digit [OF b])
qed

lemma scanstring_escape_char:
  "scanstring (escape_char c @ rest) = cons_result c (scanstring rest)"
  by (auto simp: escape_char_def unescape_def decode_own_escape)


lemma scanstring_escaped:
  "scanstring (concat (map escape_char s) @ CHR 0x22 # rest) = Some (s, rest)"
  by (induction s) (simp_all add: scanstring_escape_char cons_result_def)

lemma skip_ws_Nil [simp]: "skip_ws [] = []"
  by (simp add: skip_ws_def)

lemma skip_ws_token [simp]: "\<not> is_json_ws c \<Longrightarrow> skip_ws (c # s) = c # s"
  by (simp add: skip_ws_def)

lemma skip_ws_white [simp]: "is_json_ws c \<Longrightarrow> skip_ws (c # s) = skip_ws s"
  by (simp add: skip_ws_def)

lemma skip_ws_spaces [simp]: "skip_ws (replicate n (CHR '' '') @ s) = skip_ws s"
  by (induction n) (simp_all add: is_json_ws_def)

lemma skip_ws_newline_indent [simp]: "skip_ws (newline_indent n @ s) = skip_ws s"
  by (simp add: newline_indent_def is_json_ws_def)

lemma json_ws_simps [simp]:
  "is_json_ws (CHR '' '')" "\<not> is_json_ws (CHR 0x22)" "\<not> is_json_ws (CHR '','')"
  "\<not> is_json_ws (CHR '':'')" "\<not> is_json_ws (CHR ''['')" "\<not> is_json_ws (CHR '']'')"
  "\<not> is_json_ws (CHR ''{'')" "\<not> is_json_ws (CHR ''}'')"
  by (simp_all add: is_json_ws_def)

lemma parse_string_encoded [simp]: "parse_string (encode_string s @ rest) = Some (s, rest)"
  by (simp add: parse_string_def encode_string_def scanstring_escaped)

lemma parse_string_indent [simp]:
  "parse_string (newline_indent n @ s) = parse_string s"
  by (simp add: parse_string_def)

lemma parse_string_space [simp]:
  "parse_string (CHR '' '' # s) = parse_string s"
  by (simp add: parse_string_def)

lemma expect_indent [simp]: "expect c (newline_indent n @ s) = expect c s"
  by (simp add: expect_def)

lemma expect_space [simp]: "expect c (CHR '' '' # s) = expect c s"
  by (simp add: expect_def)

lemma expect_token [simp]: "\<not> is_json_ws c \<Longrightarrow> expect c (c # s) = Some s"
  by (simp add: expect_def)

lemma parse_items_indent [simp]: "parse_items (newline_indent n @ s) = parse_items s"
  by (simp add: parse_items.simps [of "newline_indent n @ s"] parse_items.simps [of s])

lemma parse_pairs_indent [simp]: "parse_pairs (newline_indent n @ s) = parse_pairs s"
  by (simp add: parse_pairs.simps [of "newline_indent n @ s"] parse_pairs.simps [of s])

lemma parse_array_space [simp]: "parse_array (CHR '' '' # s) = parse_array s"
  by (simp add: parse_array_def)

lemma parse_dict_space [simp]: "parse_dict (CHR '' '' # s) = parse_dict s"
  by (simp add: parse_dict_def)

lemma parse_items_encoded:
  "xs \<noteq> [] \<Longrightarrow> parse_items (encode_items level xs @ rest) = Some (xs, rest)"
proof (induction level xs rule: encode_items.induct)
  case (1 level)
  then show ?case by simp
next
  case (2 level x)
  show ?case
    by (subst parse_items.simps) simp
next
  case (3 level x y ys)
  then show ?case
    by (subst parse_items.simps) simp
qed

lemma parse_array_encoded: "parse_array (encode_list level xs @ rest) = Some (xs, rest)"
proof (cases xs)
  case Nil
  then show ?thesis by (simp add: parse_array_def encode_list_def)
next
  case (Cons y ys)
  then have ne: "xs \<noteq> []" by simp
  have q: "skip_ws (encode_items level xs @ rest) = CHR 0x22 # tl (encode_items level xs @ rest)"
    using Cons by (cases ys) (simp_all add: encode_string_def)
  show ?thesis
    using ne by (simp add: parse_array_def encode_list_def q parse_items_encoded)
qed

lemma parse_pairs_encoded:
  "d \<noteq> [] \<Longrightarrow> parse_pairs (encode_pairs level d @ rest) = Some (d, rest)"
proof (induction level d rule: encode_pairs.induct)
  case (1 level)
  then show ?case by simp
next
  case (2 level k v)
  show ?case
    by (subst parse_pairs.simps) simp
next
  case (3 level k v p ps)
  then show ?case
    by (subst parse_pairs.simps) simp
qed

lemma dict_set_fresh: "k \<notin> set (map fst d) \<Longrightarrow> dict_set k v d = d @ [(k, v)]"
  by (induction d) auto

lemma foldl_dict_set_distinct:
  "distinct (map fst (acc @ ps)) \<Longrightarrow> foldl (\<lambda>d (k, v). dict_set k v d) acc ps = acc @ ps"
proof (induction ps arbitrary: acc)
  case Nil
  then show ?case by simp
next
  case (Cons p ps)
  obtain k v where p: "p = (k, v)" by (cases p)
  have fresh: "k \<notin> set (map fst acc)" using Cons.prems p by auto
  have "distinct (map fst ((acc @ [(k, v)]) @ ps))" using Cons.prems p by simp
  then have "foldl (\<lambda>d (k, v). dict_set k v d) (acc @ [(k, v)]) ps = (acc @ [(k, v)]) @ ps"
    by (rule Cons.IH)
  then show ?case using p fresh by (simp add: dict_set_fresh)
qed

lemma dict_of_pairs_distinct: "distinct (map fst ps) \<Longrightarrow> dict_of_pairs ps = ps"
  using foldl_dict_set_distinct [of "[]" ps] by (simp add: dict_of_pairs_def)

lemma parse_dict_encoded:
  "distinct (map fst d) \<Longrightarrow> parse_dict (encode_dict level d @ rest) = Some (d, rest)"
proof (cases d)
  case Nil
  then show ?thesis by (simp add: parse_dict_def encode_dict_def)
next
  case (Cons y ys)
  assume dist: "distinct (map fst d)"
  have ne: "d \<noteq> []" using Cons by simp
  obtain k v where y: "y = (k, v)" by (cases y)
  have q: "skip_ws (encode_pairs level d @ rest) = CHR 0x22 # tl (encode_pairs level d @ rest)"
    using Cons y by (cases ys) (simp_all add: encode_string_def)
  show ?thesis
    using ne dist by (simp add: parse_dict_def encode_dict_def q parse_pairs_encoded dict_of_pairs_distinct)
qed

lemma json_loads_dumps:
  "distinct (map fst (files r)) \<Longrightarrow> json_loads (json_dumps r) = Some r"
  by (simp add: json_loads_def json_dumps_def parse_dict_encoded parse_array_encoded)

lemma load_after_save:
  "distinct (map fst (files r)) \<Longrightarrow> load_registry (save_registry r w) = (Inr r, save_registry r w)"
  by (simp add: load_registry_def save_registry_def json_loads_dumps)

section \<open>Aliases\<close>

lemma digit_value_char: "d < 10 \<Longrightarrow> digit_value (digit_char d) = d"
  by (simp add: digit_value_def digit_char_def)

lemma nat_of_digits_str_nat: "nat_of_digits (str_nat n) = n"
proof (induction n rule: str_nat.induct)
  case (1 n)
  show ?case
  proof (cases "n < 10")
    case True
    then show ?thesis
      by (subst str_nat.simps) (simp add: nat_of_digits_def digit_value_char)
  next
    case False
    then have ih: "nat_of_digits (str_nat (n div 10)) = n div 10" using 1 by simp
    have d: "digit_value (digit_char (n mod 10)) = n mod 10" by (simp add: digit_value_char)
    have "nat_of_digits (str_nat n) = 10 * nat_of_digits (str_nat (n div 10)) + digit_value (digit_char (n mod 10))"
      using False by (subst str_nat.simps) (simp add: nat_of_digits_def)
    then show ?thesis using ih d by simp
  qed
qed

lemma str_nat_inj: "str_nat m = str_nat n \<Longrightarrow> m = n"
  by (metis nat_of_digits_str_nat)

lemma str_nat_not_Nil [simp]: "str_nat n \<noteq> []" "[] \<noteq> str_nat n"
  by (subst str_nat.simps, simp)+

lemma spec_alias_inj: "spec_alias j = spec_alias k \<Longrightarrow> j = k"
  by (auto simp: spec_alias_def dest: str_nat_inj split: if_splits)

lemma assign_aliases_zip:
  "set (map fst d) \<subseteq> spec_alias ` {1..i} \<Longrightarrow>
   assign_aliases i fs d = d @ zip (map spec_alias [i + 1 ..< i + 1 + length fs]) fs"
proof (induction fs arbitrary: i d)
  case Nil
  then show ?case by simp
next
  case (Cons f fs)
  let ?k = "if i = 0 then ''.FILE'' else ''.FILE'' @ str_nat (i + 1)"
  have k: "?k = spec_alias (i + 1)" by (simp add: spec_alias_def)
  have fresh: "spec_alias (i + 1) \<notin> set (map fst d)"
  proof
    assume "spec_alias (i + 1) \<in> set (map fst d)"
    then obtain j where "j \<in> {1..i}" and "spec_alias (i + 1) = spec_alias j"
      using Cons.prems by auto
    then show False using spec_alias_inj [of "i + 1" j] by simp
  qed
  have step: "dict_set ?k f d = d @ [(spec_alias (i + 1), f)]"
    unfolding k using fresh by (rule dict_set_fresh)
  have keys: "set (map fst (d @ [(spec_alias (i + 1), f)])) \<subseteq> spec_alias ` {1..i + 1}"
    using Cons.prems by auto
  have "assign_aliases (i + 1) fs (d @ [(spec_alias (i + 1), f)])
      = (d @ [(spec_alias (i + 1), f)]) @ zip (map spec_alias [i + 1 + 1 ..< i + 1 + 1 + length fs]) fs"
    using keys by (rule Cons.IH)
  moreover have "[i + 1 ..< i + 1 + length (f # fs)] = (i + 1) # [i + 1 + 1 ..< i + 1 + 1 + length fs]"
    using upt_conv_Cons [of "i + 1" "i + 1 + length (f # fs)"] by simp
  ultimately show ?case
    by (simp only: assign_aliases.simps step) simp
qed

lemma assign_aliases_all:
  "assign_aliases 0 fs [] = zip (map spec_alias [1 ..< Suc (length fs)]) fs"
  using assign_aliases_zip [of "[]" 0 fs] by simp

section \<open>Registration\<close>

lemma ensure_installed_file:
  "registry_file (snd (ensure_installed E deps w)) = registry_file w"
  by (induction deps arbitrary: w) (auto simp: log_def Let_def split: option.splits)

lemma deps_comprehension:
  "map strip (filter (\<lambda>lib. truthy (strip lib)) xs) = filter truthy (map strip xs)"
  by (simp add: filter_map comp_def)

lemma load_registry_dumps:
  "registry_file w = Some (json_dumps r) \<Longrightarrow> distinct (map fst (files r)) \<Longrightarrow>
   load_registry w = (Inr r, w)"
  by (simp add: load_registry_def json_loads_dumps)

lemma distinct_spec_aliases: "distinct (map spec_alias [1 ..< Suc n])"
  by (simp add: distinct_map inj_on_def spec_alias_inj)

lemma register_success:
  assumes "listdir E (normalize_folder F) = Some entries"
    and "stdin_line E = Some libs"
    and "ensure_installed E (filter truthy (map strip (split (CHR '','') libs)))
           (log (Prompt ''Enter libraries (comma+space separated): '') w) = (Inr (), w2)"
  shows "register E F w =
     (Inr (), log (Print ''[framepython] Project registered!'')
        (save_registry
           \<lparr>files = zip (map spec_alias [1 ..< Suc (length (filter (\<lambda>f. endswith f ''.py'') entries))])
                       (filter (\<lambda>f. endswith f ''.py'') entries),
            dependencies = filter truthy (map strip (split (CHR '','') libs))\<rparr> w2))"
  using assms by (simp add: register_def deps_comprehension assign_aliases_all Let_def del: upt_Suc)

lemma ensure_installed_trace:
  "\<exists>new. events (snd (ensure_installed E deps w)) = events w @ new \<and>
     (\<forall>pre argv post. new = pre @ CheckCall argv # post \<longrightarrow>
        returncode E (events w @ pre) argv \<noteq> 0 \<longrightarrow>
        post = [] \<and> fst (ensure_installed E deps w)
                    = Inl (CalledProcessError (returncode E (events w @ pre) argv)))"
proof (induction deps arbitrary: w)
  case Nil
  show ?case by simp
next
  case (Cons dep deps)
  show ?case
  proof (cases "import_module E (events w) dep")
    case None
    from Cons [of "log (Import dep) w"] obtain new where
      ev: "events (snd (ensure_installed E deps (log (Import dep) w))) = events (log (Import dep) w) @ new"
      and tr: "\<And>pre argv post. new = pre @ CheckCall argv # post \<Longrightarrow>
        returncode E (events (log (Import dep) w) @ pre) argv \<noteq> 0 \<Longrightarrow>
        post = [] \<and> fst (ensure_installed E deps (log (Import dep) w))
                    = Inl (CalledProcessError (returncode E (events (log (Import dep) w) @ pre) argv))"
      by blast
    have "events (snd (ensure_installed E (dep # deps) w)) = events w @ (Import dep # new)"
      using None ev by (simp add: log_def)
    moreover have "\<forall>pre argv post. Import dep # new = pre @ CheckCall argv # post \<longrightarrow>
        returncode E (events w @ pre) argv \<noteq> 0 \<longrightarrow>
        post = [] \<and> fst (ensure_installed E (dep # deps) w)
                    = Inl (CalledProcessError (returncode E (events w @ pre) argv))"
    proof (intro allI impI)
      fix pre argv post
      assume sp: "Import dep # new = pre @ CheckCall argv # post"
        and rc: "returncode E (events w @ pre) argv \<noteq> 0"
      from sp obtain pre' where p: "pre = Import dep # pre'" and n: "new = pre' @ CheckCall argv # post"
        by (cases pre) auto
      have "events (log (Import dep) w) @ pre' = events w @ pre" using p by (simp add: log_def)
      with tr [OF n] rc None show "post = [] \<and> fst (ensure_installed E (dep # deps) w)
                    = Inl (CalledProcessError (returncode E (events w @ pre) argv))"
        by simp
    qed
    ultimately show ?thesis by blast
  next
    case (Some e)
    show ?thesis
    proof (cases "e = ImportError")
      case False
      have "events (snd (ensure_installed E (dep # deps) w)) = events w @ [Import dep]"
        using Some False by (simp add: log_def)
      moreover have "\<forall>pre argv post. [Import dep] = pre @ CheckCall argv # post \<longrightarrow>
        returncode E (events w @ pre) argv \<noteq> 0 \<longrightarrow>
        post = [] \<and> fst (ensure_installed E (dep # deps) w)
                    = Inl (CalledProcessError (returncode E (events w @ pre) argv))"
        by (auto simp: Cons_eq_append_conv)
      ultimately show ?thesis by blast
    next
      case True
      define msg where "msg = Print (''[framepython] Installing '' @ dep @ ''...'')"
      define argv0 where "argv0 = [executable E, ''-m'', ''pip'', ''install'', dep]"
      define w1 where "w1 = log msg (log (Import dep) w)"
      define w2 where "w2 = log (CheckCall argv0) w1"
      have e1: "events w1 = events w @ [Import dep, msg]" by (simp add: w1_def log_def)
      have e2: "events w2 = events w @ [Import dep, msg, CheckCall argv0]" by (simp add: w2_def log_def e1)
      have unf: "ensure_installed E (dep # deps) w =
        (if returncode E (events w1) argv0 = 0 then ensure_installed E deps w2
         else (Inl (CalledProcessError (returncode E (events w1) argv0)), w2))"
        using Some True by (simp add: w1_def w2_def argv0_def msg_def Let_def)
      show ?thesis
      proof (cases "returncode E (events w1) argv0 = 0")
        case False
        have "events (snd (ensure_installed E (dep # deps) w)) = events w @ [Import dep, msg, CheckCall argv0]"
          using False unf e2 by simp
        moreover have "\<forall>pre argv post. [Import dep, msg, CheckCall argv0] = pre @ CheckCall argv # post \<longrightarrow>
          returncode E (events w @ pre) argv \<noteq> 0 \<longrightarrow>
          post = [] \<and> fst (ensure_installed E (dep # deps) w)
                    = Inl (CalledProcessError (returncode E (events w @ pre) argv))"
          using False unf e1 by (auto simp: Cons_eq_append_conv msg_def)
        ultimately show ?thesis by blast
      next
        case rc0: True
        from Cons [of w2] obtain new where
          ev: "events (snd (ensure_installed E deps w2)) = events w2 @ new"
          and tr: "\<And>pre argv post. new = pre @ CheckCall argv # post \<Longrightarrow>
            returncode E (events w2 @ pre) argv \<noteq> 0 \<Longrightarrow>
            post = [] \<and> fst (ensure_installed E deps w2)
                    = Inl (CalledProcessError (returncode E (events w2 @ pre) argv))"
          by blast
        have "events (snd (ensure_installed E (dep # deps) w))
            = events w @ (Import dep # msg # CheckCall argv0 # new)"
          using rc0 unf ev e2 by simp
        moreover have "\<forall>pre argv post. Import dep # msg # CheckCall argv0 # new = pre @ CheckCall argv # post \<longrightarrow>
          returncode E (events w @ pre) argv \<noteq> 0 \<longrightarrow>
          post = [] \<and> fst (ensure_installed E (dep # deps) w)
                    = Inl (CalledProcessError (returncode E (events w @ pre) argv))"
        proof (intro allI impI)
          fix pre argv post
          assume sp: "Import dep # msg # CheckCall argv0 # new = pre @ CheckCall argv # post"
            and rc: "returncode E (events w @ pre) argv \<noteq> 0"
          from sp have "(pre = [Import dep, msg] \<and> argv = argv0) \<or>
             (\<exists>pre'. pre = Import dep # msg # CheckCall argv0 # pre' \<and> new = pre' @ CheckCall argv # post)"
            by (auto simp: Cons_eq_append_conv msg_def)
          then show "post = [] \<and> fst (ensure_installed E (dep # deps) w)
                    = Inl (CalledProcessError (returncode E (events w @ pre) argv))"
          proof
            assume "pre = [Import dep, msg] \<and> argv = argv0"
            then have "returncode E (events w @ pre) argv = 0" using rc0 e1 by simp
            with rc show ?thesis by simp
          next
            assume "\<exists>pre'. pre = Import dep # msg # CheckCall argv0 # pre' \<and> new = pre' @ CheckCall argv # post"
            then obtain pre' where p: "pre = Import dep # msg # CheckCall argv0 # pre'"
              and n: "new = pre' @ CheckCall argv # post" by blast
            have "events w2 @ pre' = events w @ pre" using p e2 by simp
            with tr [OF n] rc rc0 unf show ?thesis by simp
          qed
        qed
        ultimately show ?thesis by blast
      qed
    qed
  qed
qed


lemma register_failure_keeps_file:
  "fst (register E F w) \<noteq> Inr () \<Longrightarrow> registry_file (snd (register E F w)) = registry_file w"
proof -
  assume f: "fst (register E F w) \<noteq> Inr ()"
  show ?thesis
  proof (cases "listdir E (normalize_folder F)")
    case None
    then show ?thesis by (simp add: register_def)
  next
    case (Some entries)
    show ?thesis
    proof (cases "stdin_line E")
      case None
      then show ?thesis using Some by (simp add: register_def log_def)
    next
      case libs: (Some libs)
      define deps where "deps = map strip (filter (\<lambda>lib. truthy (strip lib)) (split (CHR '','') libs))"
      define w1 where "w1 = log (Prompt ''Enter libraries (comma+space separated): '') w"
      obtain r w2 where ei: "ensure_installed E deps w1 = (r, w2)" by (cases "ensure_installed E deps w1")
      have "registry_file (snd (ensure_installed E deps w1)) = registry_file w1"
        by (rule ensure_installed_file)
      then have same: "registry_file w2 = registry_file w"
        unfolding ei by (simp add: w1_def log_def)
      show ?thesis
      proof (cases r)
        case (Inl e)
        then show ?thesis using Some libs ei same
          by (simp add: register_def Let_def deps_def w1_def)
      next
        case (Inr u)
        then have "fst (register E F w) = Inr ()" using Some libs ei
          by (simp add: register_def Let_def deps_def w1_def)
        with f show ?thesis by simp
      qed
    qed
  qed
qed

lemma register_pip_failure:
  assumes ev: "events (snd (register E F w)) = events w @ pre @ CheckCall argv # post"
    and rc: "returncode E (events w @ pre) argv \<noteq> 0"
  shows "post = [] \<and> fst (register E F w) = Inl (CalledProcessError (returncode E (events w @ pre) argv))"
proof (cases "listdir E (normalize_folder F)")
  case None
  then show ?thesis using ev by (simp add: register_def)
next
  case (Some entries)
  show ?thesis
  proof (cases "stdin_line E")
    case None
    then show ?thesis using Some ev by (auto simp: register_def log_def Cons_eq_append_conv)
  next
    case libs: (Some libs)
    define deps where "deps = map strip (filter (\<lambda>lib. truthy (strip lib)) (split (CHR '','') libs))"
    define p where "p = Prompt ''Enter libraries (comma+space separated): ''"
    define w1 where "w1 = log p w"
    have e1: "events w1 = events w @ [p]" by (simp add: w1_def log_def)
    obtain r w2 where ei: "ensure_installed E deps w1 = (r, w2)" by (cases "ensure_installed E deps w1")
    from ensure_installed_trace [of E deps w1] ei obtain new where
      n: "events w2 = events w1 @ new"
      and tr: "\<And>pre argv post. new = pre @ CheckCall argv # post \<Longrightarrow>
          returncode E (events w1 @ pre) argv \<noteq> 0 \<Longrightarrow>
          post = [] \<and> r = Inl (CalledProcessError (returncode E (events w1 @ pre) argv))"
      by auto
    show ?thesis
    proof (cases r)
      case (Inl e)
      then have reg: "register E F w = (Inl e, w2)" using Some libs ei
        by (simp add: register_def Let_def deps_def w1_def p_def)
      with ev n e1 have "p # new = pre @ CheckCall argv # post" by simp
      then obtain pre' where pre: "pre = p # pre'" and new: "new = pre' @ CheckCall argv # post"
        by (cases pre) (auto simp: p_def)
      have "events w1 @ pre' = events w @ pre" using pre e1 by simp
      with tr [OF new] rc reg Inl show ?thesis by simp
    next
      case (Inr u)
      then have reg: "register E F w = (Inr (), log (Print ''[framepython] Project registered!'')
          (save_registry \<lparr>files = assign_aliases 0 (filter (\<lambda>f. endswith f ''.py'') entries) [],
             dependencies = deps\<rparr> w2))"
        using Some libs ei by (simp add: register_def Let_def deps_def w1_def p_def)
      with ev n e1 have "p # new @ [Print ''[framepython] Project registered!''] = pre @ CheckCall argv # post"
        by (simp add: log_def save_registry_def)
      then obtain pre' where pre: "pre = p # pre'"
        and sp: "new @ [Print ''[framepython] Project registered!''] = pre' @ CheckCall argv # post"
        by (cases pre) (auto simp: p_def)
      from sp obtain post' where new: "new = pre' @ CheckCall argv # post'"
        by (cases post rule: rev_cases) auto
      have "events w1 @ pre' = events w @ pre" using pre e1 by simp
      with tr [OF new] rc Inr show ?thesis by simp
    qed
  qed
qed

lemma ensure_installed_ignores_file:
  "ensure_installed E deps (w\<lparr>registry_file := c\<rparr>)
     = (fst (ensure_installed E deps w), (snd (ensure_installed E deps w))\<lparr>registry_file := c\<rparr>)"
proof (induction deps arbitrary: w)
  case Nil
  show ?case by simp
next
  case (Cons dep deps)
  have l: "\<And>e v. log e (v\<lparr>registry_file := c\<rparr>) = (log e v)\<lparr>registry_file := c\<rparr>"
    by (simp add: log_def)
  show ?case
    by (cases "import_module E (events w) dep") (simp_all add: l Cons Let_def)
qed

lemma register_Inr_cases:
  assumes "fst (register E F w) = Inr ()"
  obtains entries libs w2 where "listdir E (normalize_folder F) = Some entries"
    and "stdin_line E = Some libs"
    and "ensure_installed E (filter truthy (map strip (split (CHR '','') libs)))
           (log (Prompt ''Enter libraries (comma+space separated): '') w) = (Inr (), w2)"
proof (cases "listdir E (normalize_folder F)")
  case None
  then show ?thesis using assms by (simp add: register_def)
next
  case (Some entries)
  show ?thesis
  proof (cases "stdin_line E")
    case None
    then show ?thesis using assms Some by (simp add: register_def)
  next
    case libs: (Some libs)
    obtain r w2 where ei: "ensure_installed E (filter truthy (map strip (split (CHR '','') libs)))
           (log (Prompt ''Enter libraries (comma+space separated): '') w) = (r, w2)"
      by (cases "ensure_installed E (filter truthy (map strip (split (CHR '','') libs)))
           (log (Prompt ''Enter libraries (comma+space separated): '') w)")
    have "r = Inr ()"
      using assms Some libs ei
      by (cases r) (simp_all add: register_def Let_def deps_comprehension)
    then show ?thesis using that [OF Some libs] ei by simp
  qed
qed

lemma register_pip_fails_run:
  "register env_pip_fails ''current'' world_registered =
    (Inl (CalledProcessError 1),
     world_registered\<lparr>events :=
       [Prompt ''Enter libraries (comma+space separated): '',
        Import ''nosuchpkg'',
        Print ''[framepython] Installing nosuchpkg...'',
        CheckCall [''python3'', ''-m'', ''pip'', ''install'', ''nosuchpkg'']]\<rparr>)"
  by (simp add: register_def env_pip_fails_def world_registered_def empty_world_def
      save_registry_def normalize_folder_def endswith_def strip_def is_space_def truthy_def log_def)

section \<open>Loading, running targets and dispatching\<close>

lemma load_registry_Some:
  "registry_file w = Some content \<Longrightarrow> json_loads content = Some reg \<Longrightarrow>
   load_registry w = (Inr reg, w)"
  by (simp add: load_registry_def)

lemma load_registry_None:
  "registry_file w = None \<Longrightarrow>
   load_registry w = (Inl (SystemExit 1),
     log (Print ''[framepython] No project registered yet. Run --register first.'') w)"
  by (simp add: load_registry_def)

lemma load_world_registered:
  "load_registry world_registered = (Inr example_registry, world_registered)"
  unfolding world_registered_def by (rule load_after_save) (simp add: example_registry_def)

lemma attempted_append [simp]: "attempted (xs @ ys) = attempted xs @ attempted ys"
  by (simp add: attempted_def)

lemma ran_debug_header [simp]: "ran (debug_header t) = []"
  by (simp add: debug_header_def)

lemma attempted_target_events [simp]: "attempted (target_events E h t) = [snd t]"
proof (cases "run_path E (h @ [debug_header t]) (snd t)")
  case None
  then show ?thesis by (simp add: attempted_def target_events_def)
next
  case (Some e)
  then show ?thesis
    by (cases "is_Exception e") (simp_all add: attempted_def target_events_def)
qed

lemma attempted_foldl:
  "attempted (foldl (\<lambda>h t. h @ target_events E h t) h0 ts) = attempted h0 @ map snd ts"
  by (induction ts arbitrary: h0) simp_all

lemma run_targets_caught_step:
  assumes "\<not> escapes E (events w) t"
  shows "run_targets E (t # ts) w
    = run_targets E ts (w\<lparr>events := events w @ target_events E (events w) t\<rparr>)"
proof -
  obtain dot filepath where t: "t = (dot, filepath)" by (cases t)
  define header where "header = debug_header (dot, filepath)"
  show ?thesis
  proof (cases "run_path E (events w @ [header]) filepath")
    case None
    have te: "target_events E (events w) (dot, filepath) = [header, RunPath filepath]"
      using None by (simp add: target_events_def header_def [symmetric])
    have "run_targets E ((dot, filepath) # ts) w
        = run_targets E ts (w\<lparr>events := events w @ [header, RunPath filepath]\<rparr>)"
      using None by (simp add: header_def debug_header_def log_def Let_def)
    then show ?thesis unfolding t te .
  next
    case (Some e)
    then have ex: "is_Exception e"
      using assms by (simp add: escapes_def t header_def)
    have te: "target_events E (events w) (dot, filepath) =
        [header, RunPath filepath, Print ''----- ERROR TRACEBACK -----'',
         Print (format_exc E e), Print ''---------------------------'']"
      using Some ex by (simp add: target_events_def header_def [symmetric])
    have "run_targets E ((dot, filepath) # ts) w
        = run_targets E ts (w\<lparr>events := events w @
            [header, RunPath filepath, Print ''----- ERROR TRACEBACK -----'',
             Print (format_exc E e), Print ''---------------------------'']\<rparr>)"
      using Some ex by (simp add: header_def debug_header_def log_def Let_def)
    then show ?thesis unfolding t te .
  qed
qed

lemma run_targets_escape_step:
  assumes "run_path E (events w @ [debug_header t]) (snd t) = Some e" and "\<not> is_Exception e"
  shows "run_targets E (t # ts) w
    = (Inl e, w\<lparr>events := events w @ [debug_header t, RunPath (snd t)]\<rparr>)"
proof -
  obtain dot filepath where t: "t = (dot, filepath)" by (cases t)
  show ?thesis
    using assms unfolding t by (simp add: debug_header_def log_def Let_def)
qed

lemma run_targets_prefix:
  "all_caught E (events w) pre \<Longrightarrow>
   run_targets E (pre @ rest) w
     = run_targets E rest
         (w\<lparr>events := foldl (\<lambda>h t. h @ target_events E h t) (events w) pre\<rparr>)"
proof (induction pre arbitrary: w)
  case Nil
  show ?case by simp
next
  case (Cons t pre)
  define w2 where "w2 = w\<lparr>events := events w @ target_events E (events w) t\<rparr>"
  have ne: "\<not> escapes E (events w) t" and rest: "all_caught E (events w2) pre"
    using Cons.prems by (simp_all add: w2_def)
  have "run_targets E ((t # pre) @ rest) w = run_targets E (pre @ rest) w2"
    using run_targets_caught_step [OF ne, of "pre @ rest"] by (simp add: w2_def)
  also have "\<dots> = run_targets E rest
      (w2\<lparr>events := foldl (\<lambda>h t. h @ target_events E h t) (events w2) pre\<rparr>)"
    using rest by (rule Cons.IH)
  also have "w2\<lparr>events := foldl (\<lambda>h t. h @ target_events E h t) (events w2) pre\<rparr>
      = w\<lparr>events := foldl (\<lambda>h t. h @ target_events E h t) (events w) (t # pre)\<rparr>"
    by (simp add: w2_def)
  finally show ?case .
qed

lemma debug_all_unfold:
  "registry_file w = Some content \<Longrightarrow> json_loads content = Some reg \<Longrightarrow>
   debug E None w = run_targets E (files reg) w"
  by (simp add: debug_def load_registry_def)

lemma debug_raises_run:
  "debug env_target_raises None world_registered =
     (Inr (), world_registered\<lparr>events :=
        [Print (CHR 0x0A # ''[framepython] Debugging .FILE (a.py)''), RunPath ''a.py'',
         Print ''----- ERROR TRACEBACK -----'',
         Print ''Traceback (most recent call last): ...'',
         Print ''---------------------------'',
         Print (CHR 0x0A # ''[framepython] Debugging .FILE2 (b.py)''), RunPath ''b.py'']\<rparr>)"
  by (simp add: debug_def load_world_registered)
     (simp add: example_registry_def env_target_raises_def log_def world_registered_def
        save_registry_def empty_world_def)

lemma debug_raise_then_exit_run:
  "debug env_raise_then_exit None world_registered =
     (Inl (SystemExit 3), world_registered\<lparr>events :=
        [Print (CHR 0x0A # ''[framepython] Debugging .FILE (a.py)''), RunPath ''a.py'',
         Print ''----- ERROR TRACEBACK -----'',
         Print ''Traceback (most recent call last): ...'',
         Print ''---------------------------'',
         Print (CHR 0x0A # ''[framepython] Debugging .FILE2 (b.py)''), RunPath ''b.py'']\<rparr>)"
  by (simp add: debug_def load_world_registered)
     (simp add: example_registry_def env_raise_then_exit_def log_def world_registered_def
        save_registry_def empty_world_def)

lemma missing_message_differs:
  "''[framepython] No project registered yet. Run --register first.''
     \<noteq> ''[framepython] '' @ A @ '' not registered.''"
proof
  assume "''[framepython] No project registered yet. Run --register first.''
     = ''[framepython] '' @ A @ '' not registered.''"
  then have "rev ''[framepython] No project registered yet. Run --register first.''
     = rev (''[framepython] '' @ A @ '' not registered.'')"
    by (rule arg_cong)
  then show False by simp
qed

lemma ensure_installed_Inl:
  "fst (ensure_installed E deps w) = Inl e \<Longrightarrow>
     (\<exists>h d. import_module E h d = Some e \<and> e \<noteq> ImportError)
     \<or> (\<exists>h dep. returncode E h (pip_argv E dep) \<noteq> 0
            \<and> e = CalledProcessError (returncode E h (pip_argv E dep)))"
proof (induction deps arbitrary: w)
  case Nil
  then show ?case by simp
next
  case (Cons dep deps)
  show ?case
  proof (cases "import_module E (events w) dep")
    case None
    then have "fst (ensure_installed E deps (log (Import dep) w)) = Inl e"
      using Cons.prems by simp
    then show ?thesis by (rule Cons.IH)
  next
    case (Some x)
    show ?thesis
    proof (cases "x = ImportError")
      case False
      then have "e = x" using Cons.prems Some by simp
      then show ?thesis using Some False by blast
    next
      case True
      define w1 where "w1 = log (Print (''[framepython] Installing '' @ dep @ ''...'')) (log (Import dep) w)"
      define w2 where "w2 = log (CheckCall (pip_argv E dep)) w1"
      define code where "code = returncode E (events w1) (pip_argv E dep)"
      have unf: "ensure_installed E (dep # deps) w =
          (if code = 0 then ensure_installed E deps w2 else (Inl (CalledProcessError code), w2))"
        using Some True by (simp add: w1_def w2_def code_def pip_argv_def Let_def)
      show ?thesis
      proof (cases "code = 0")
        case True
        then have "fst (ensure_installed E deps w2) = Inl e" using Cons.prems unf by simp
        then show ?thesis by (rule Cons.IH)
      next
        case False
        then have "e = CalledProcessError code" using Cons.prems unf by simp
        then show ?thesis using False unfolding code_def by blast
      qed
    qed
  qed
qed

lemma run_targets_Inl:
  "fst (run_targets E ts w) = Inl e \<Longrightarrow> \<exists>h f. run_path E h f = Some e \<and> \<not> is_Exception e"
proof (induction ts arbitrary: w)
  case Nil
  then show ?case by simp
next
  case (Cons t ts)
  show ?case
  proof (cases "escapes E (events w) t")
    case False
    then have "fst (run_targets E ts (w\<lparr>events := events w @ target_events E (events w) t\<rparr>)) = Inl e"
      using Cons.prems run_targets_caught_step [of E w t ts] by simp
    then show ?thesis by (rule Cons.IH)
  next
    case True
    then obtain x where rp: "run_path E (events w @ [debug_header t]) (snd t) = Some x"
      and nx: "\<not> is_Exception x"
      by (auto simp: escapes_def split: option.splits)
    then have "e = x" using Cons.prems run_targets_escape_step [OF rp nx, of ts] by simp
    then show ?thesis using rp nx by blast
  qed
qed

lemma register_Inl:
  assumes "fst (register E F w) = Inl e"
  shows "(listdir E (normalize_folder F) = None \<and> e = Error ''OSError'')
     \<or> (stdin_line E = None \<and> e = Error ''EOFError'')
     \<or> (\<exists>h d. import_module E h d = Some e \<and> e \<noteq> ImportError)
     \<or> (\<exists>h dep. returncode E h (pip_argv E dep) \<noteq> 0
            \<and> e = CalledProcessError (returncode E h (pip_argv E dep)))"
proof (cases "listdir E (normalize_folder F)")
  case None
  then show ?thesis using assms by (simp add: register_def)
next
  case (Some entries)
  show ?thesis
  proof (cases "stdin_line E")
    case None
    then show ?thesis using assms Some by (simp add: register_def)
  next
    case libs: (Some libs)
    define deps where "deps = map strip (filter (\<lambda>lib. truthy (strip lib)) (split (CHR '','') libs))"
    define w1 where "w1 = log (Prompt ''Enter libraries (comma+space separated): '') w"
    obtain r w2 where ei: "ensure_installed E deps w1 = (r, w2)"
      by (cases "ensure_installed E deps w1")
    have "r = Inl e"
      using assms Some libs ei by (cases r) (simp_all add: register_def Let_def deps_def w1_def)
    then have "fst (ensure_installed E deps w1) = Inl e" using ei by simp
    from ensure_installed_Inl [OF this] show ?thesis by blast
  qed
qed

lemma list_files_Inl:
  assumes "\<forall>content. registry_file w = Some content \<longrightarrow> json_loads content \<noteq> None"
    and "fst (list_files w) = Inl e"
  shows "e = SystemExit 1 \<and> registry_file w = None"
  using assms by (auto simp: list_files_def load_registry_def split: option.splits)

lemma compile_file_Inl:
  assumes "\<forall>content. registry_file w = Some content \<longrightarrow> json_loads content \<noteq> None"
    and "fst (compile_file E s w) = Inl e"
  shows "e = SystemExit 1 \<and> registry_file w = None"
  using assms by (auto simp: compile_file_def load_registry_def Let_def split: option.splits if_splits)

lemma debug_Inl:
  assumes "\<forall>content. registry_file w = Some content \<longrightarrow> json_loads content \<noteq> None"
    and "fst (debug E d w) = Inl e"
  shows "(e = SystemExit 1 \<and> registry_file w = None)
     \<or> (\<exists>h f. run_path E h f = Some e \<and> \<not> is_Exception e)"
proof (cases "registry_file w")
  case None
  then show ?thesis using assms(2) by (simp add: debug_def load_registry_def)
next
  case (Some content)
  then obtain reg where r: "json_loads content = Some reg" using assms(1) by auto
  have l: "load_registry w = (Inr reg, w)" using Some r by (simp add: load_registry_def)
  have "\<exists>ts. fst (run_targets E ts w) = Inl e"
  proof (cases d)
    case None
    then show ?thesis using assms(2) l by (auto simp: debug_def simp del: run_targets.simps)
  next
    case (Some s)
    then show ?thesis using assms(2) l
      by (auto simp: debug_def simp del: run_targets.simps split: if_splits)
  qed
  then show ?thesis using run_targets_Inl by blast
qed

section \<open>Claims\<close>

text \<open>
  Claim C1, as amended. For a folder \<open>F\<close> whose listing holds the files \<open>py_files\<close> ending in
  \<^verbatim>\<open>.py\<close> (in listing order), when the input line is read and \<^verbatim>\<open>ensure_installed\<close> returns
  (every dependency imports, or fails with \<^verbatim>\<open>ImportError\<close> and is installed by a \<^verbatim>\<open>pip\<close> that
  exits with 0), \<^verbatim>\<open>register(F)\<close> returns and persists a registry, which \<^verbatim>\<open>load_registry\<close>
  reads back: its \<open>files\<close> has one entry per file, the keys are distinct and are
  \<^verbatim>\<open>.FILE\<close>, \<^verbatim>\<open>.FILE2\<close>, ... in enumeration order, the values are the files, and its
  \<open>dependencies\<close> are the comma-split, trimmed, non-empty entries of the input line.
\<close>

theorem register_persists_registry:
  assumes "listdir E (normalize_folder F) = Some entries"
    and "stdin_line E = Some libs"
    and "py_files = filter (\<lambda>f. endswith f ''.py'') entries"
    and "deps = filter truthy (map strip (split (CHR '','') libs))"
    and "fst (ensure_installed E deps
           (log (Prompt ''Enter libraries (comma+space separated): '') w)) = Inr ()"
    and "w' = snd (register E F w)"
  shows "fst (register E F w) = Inr ()
    \<and> (\<exists>reg. load_registry w' = (Inr reg, w')
          \<and> registry_file w' = Some (json_dumps reg)
          \<and> length (files reg) = length py_files
          \<and> distinct (map fst (files reg))
          \<and> map fst (files reg) = map spec_alias [1 ..< Suc (length py_files)]
          \<and> map snd (files reg) = py_files
          \<and> dependencies reg = deps)"
proof -
  define w1 where "w1 = log (Prompt ''Enter libraries (comma+space separated): '') w"
  obtain r w2 where ei: "ensure_installed E deps w1 = (r, w2)"
    by (cases "ensure_installed E deps w1")
  then have ok: "ensure_installed E deps w1 = (Inr (), w2)"
    using assms(5) by (simp add: w1_def)
  define reg where "reg = \<lparr>files = zip (map spec_alias [1 ..< Suc (length py_files)]) py_files,
    dependencies = deps\<rparr>"
  have run: "register E F w
      = (Inr (), log (Print ''[framepython] Project registered!'') (save_registry reg w2))"
    using register_success [OF assms(1) assms(2), of w w2] ok
    by (simp add: w1_def reg_def assms(3) assms(4))
  have keys: "map fst (files reg) = map spec_alias [1 ..< Suc (length py_files)]"
    by (simp add: reg_def del: upt_Suc)
  have vals: "map snd (files reg) = py_files"
    by (simp add: reg_def del: upt_Suc)
  have dist: "distinct (map fst (files reg))"
    unfolding keys by (rule distinct_spec_aliases)
  have written: "registry_file w' = Some (json_dumps reg)"
    using run assms(6) by (simp add: log_def save_registry_def)
  have "load_registry w' = (Inr reg, w')"
    using written dist by (rule load_registry_dumps)
  moreover have "length (files reg) = length py_files"
    by (simp add: reg_def del: upt_Suc)
  moreover have "dependencies reg = deps" by (simp add: reg_def)
  ultimately show ?thesis using run written dist keys vals by auto
qed

text \<open>
  Claim C1, witness: a folder with \<^verbatim>\<open>a.py\<close>, \<^verbatim>\<open>notes.txt\<close> and \<^verbatim>\<open>b.py\<close>, and the input line
  \<^verbatim>\<open>requests, ,numpy \<close>.
\<close>

theorem register_persists_registry_witness:
  "listdir env_ok (normalize_folder ''current'') = Some [''a.py'', ''notes.txt'', ''b.py'']
   \<and> stdin_line env_ok = Some ''requests, ,numpy ''
   \<and> fst (ensure_installed env_ok [''requests'', ''numpy'']
        (log (Prompt ''Enter libraries (comma+space separated): '') empty_world)) = Inr ()
   \<and> map spec_alias [1 ..< Suc (length [''a.py'', ''b.py''])] = [''.FILE'', ''.FILE2'']
   \<and> fst (register env_ok ''current'' empty_world) = Inr ()
   \<and> (\<exists>reg. load_registry (snd (register env_ok ''current'' empty_world))
              = (Inr reg, snd (register env_ok ''current'' empty_world))
          \<and> registry_file (snd (register env_ok ''current'' empty_world)) = Some (json_dumps reg)
          \<and> length (files reg) = length [''a.py'', ''b.py'']
          \<and> distinct (map fst (files reg))
          \<and> map fst (files reg) = map spec_alias [1 ..< Suc (length [''a.py'', ''b.py''])]
          \<and> map snd (files reg) = [''a.py'', ''b.py'']
          \<and> dependencies reg = [''requests'', ''numpy''])"
proof -
  have h1: "listdir env_ok (normalize_folder ''current'') = Some [''a.py'', ''notes.txt'', ''b.py'']"
    by (simp add: env_ok_def normalize_folder_def)
  have h2: "stdin_line env_ok = Some ''requests, ,numpy ''"
    by (simp add: env_ok_def)
  have h3: "[''a.py'', ''b.py''] = filter (\<lambda>f. endswith f ''.py'') [''a.py'', ''notes.txt'', ''b.py'']"
    by (simp add: endswith_def)
  have h4: "[''requests'', ''numpy''] = filter truthy (map strip (split (CHR '','') ''requests, ,numpy ''))"
    by (simp add: strip_def is_space_def truthy_def)
  have h5: "fst (ensure_installed env_ok [''requests'', ''numpy'']
        (log (Prompt ''Enter libraries (comma+space separated): '') empty_world)) = Inr ()"
    by (simp add: env_ok_def Let_def)
  have al: "map spec_alias [1 ..< Suc (length [''a.py'', ''b.py''])] = [''.FILE'', ''.FILE2'']"
    by code_simp
  note t = register_persists_registry [OF h1 h2 h3 h4 h5 refl]
  show ?thesis
    by (rule conjI [OF h1 conjI [OF h2 conjI [OF h5 conjI [OF al t]]]])
qed

text \<open>
  Claim C1 as stated, without the condition on the installation, fails: the folder holds
  one source file and the input line names one dependency, but \<^verbatim>\<open>pip install\<close> exits with
  status 1, \<^verbatim>\<open>check_call\<close> raises, and no registry is persisted.
\<close>

theorem register_persists_registry_counterexample:
  "listdir env_pip_fails (normalize_folder ''current'') = Some [''a.py'', ''notes.txt'']
   \<and> stdin_line env_pip_fails = Some ''nosuchpkg''
   \<and> fst (register env_pip_fails ''current'' empty_world) = Inl (CalledProcessError 1)
   \<and> registry_file (snd (register env_pip_fails ''current'' empty_world)) = None"
  by (simp add: register_def env_pip_fails_def empty_world_def normalize_folder_def endswith_def
      strip_def is_space_def truthy_def log_def)

text \<open>
  Claim C2, as amended. \<^verbatim>\<open>debug()\<close> with no alias, over the registered targets. Whenever a
  target \<open>t\<close> that the batch reaches (no target before it raised outside \<^verbatim>\<open>Exception\<close>)
  raises an exception \<open>e\<close> that derives from \<^verbatim>\<open>Exception\<close>, the exception is caught, its
  traceback is printed between the two delimiter banners, and \<^verbatim>\<open>debug\<close> goes on with the
  targets after \<open>t\<close>, whatever these do. And when no target of the batch raises outside
  \<^verbatim>\<open>Exception\<close>, \<^verbatim>\<open>debug\<close> returns normally and every target is attempted, in registry
  order.
\<close>

theorem debug_all_isolates_failures:
  assumes "registry_file w = Some content" and "json_loads content = Some reg"
  shows "(files reg = pre @ t # post \<and> all_caught E (events w) pre
          \<and> run_path E (foldl (\<lambda>h t. h @ target_events E h t) (events w) pre @ [debug_header t])
               (snd t) = Some e
          \<and> is_Exception e \<longrightarrow>
            debug E None w
              = run_targets E post
                  (w\<lparr>events := foldl (\<lambda>h t. h @ target_events E h t) (events w) pre
                       @ [debug_header t, RunPath (snd t),
                          Print ''----- ERROR TRACEBACK -----'', Print (format_exc E e),
                          Print ''---------------------------'']\<rparr>))
    \<and> (all_caught E (events w) (files reg) \<longrightarrow>
          fst (debug E None w) = Inr ()
          \<and> events (snd (debug E None w))
              = foldl (\<lambda>h t. h @ target_events E h t) (events w) (files reg)
          \<and> attempted (events (snd (debug E None w)))
              = attempted (events w) @ map snd (files reg))"
proof (intro conjI impI)
  have d: "debug E None w = run_targets E (files reg) w"
    using assms by (rule debug_all_unfold)
  {
    assume a: "files reg = pre @ t # post \<and> all_caught E (events w) pre
          \<and> run_path E (foldl (\<lambda>h t. h @ target_events E h t) (events w) pre @ [debug_header t])
               (snd t) = Some e
          \<and> is_Exception e"
    define H where "H = foldl (\<lambda>h t. h @ target_events E h t) (events w) pre"
    define w1 where "w1 = w\<lparr>events := H\<rparr>"
    from a have sp: "files reg = pre @ t # post" and ac: "all_caught E (events w) pre"
      and rp: "run_path E (H @ [debug_header t]) (snd t) = Some e" and ex: "is_Exception e"
      by (simp_all add: H_def)
    have ne: "\<not> escapes E (events w1) t"
      using rp ex by (simp add: escapes_def w1_def)
    have te: "target_events E (events w1) t = [debug_header t, RunPath (snd t),
                          Print ''----- ERROR TRACEBACK -----'', Print (format_exc E e),
                          Print ''---------------------------'']"
      using rp ex by (simp add: target_events_def w1_def)
    have "debug E None w = run_targets E (pre @ t # post) w" using d sp by simp
    also have "\<dots> = run_targets E (t # post) w1"
      using run_targets_prefix [OF ac, of "t # post"] by (simp add: w1_def H_def)
    also have "\<dots> = run_targets E post (w1\<lparr>events := events w1 @ target_events E (events w1) t\<rparr>)"
      using ne by (rule run_targets_caught_step)
    also have "w1\<lparr>events := events w1 @ target_events E (events w1) t\<rparr>
        = w\<lparr>events := H @ [debug_header t, RunPath (snd t),
                          Print ''----- ERROR TRACEBACK -----'', Print (format_exc E e),
                          Print ''---------------------------'']\<rparr>"
      unfolding te by (simp add: w1_def)
    finally show "debug E None w
              = run_targets E post
                  (w\<lparr>events := foldl (\<lambda>h t. h @ target_events E h t) (events w) pre
                       @ [debug_header t, RunPath (snd t),
                          Print ''----- ERROR TRACEBACK -----'', Print (format_exc E e),
                          Print ''---------------------------'']\<rparr>)"
      unfolding H_def .
  }
  {
    assume ac: "all_caught E (events w) (files reg)"
    have r: "debug E None w
        = (Inr (), w\<lparr>events := foldl (\<lambda>h t. h @ target_events E h t) (events w) (files reg)\<rparr>)"
      using run_targets_prefix [OF ac, of "[]"] d by simp
    show "fst (debug E None w) = Inr ()" by (simp add: r)
    show "events (snd (debug E None w))
              = foldl (\<lambda>h t. h @ target_events E h t) (events w) (files reg)"
      by (simp add: r)
    show "attempted (events (snd (debug E None w)))
              = attempted (events w) @ map snd (files reg)"
      by (simp add: r attempted_foldl)
  }
qed

text \<open>
  Claim C2, witness. First batch: \<^verbatim>\<open>a.py\<close> raises \<^verbatim>\<open>ValueError\<close> and \<^verbatim>\<open>b.py\<close> calls \<^verbatim>\<open>sys.exit(3)\<close>;
  the traceback of \<^verbatim>\<open>a.py\<close> is printed between the banners and \<^verbatim>\<open>b.py\<close> is attempted after
  it. Second batch: \<^verbatim>\<open>a.py\<close> raises \<^verbatim>\<open>ValueError\<close> and \<^verbatim>\<open>b.py\<close> returns; \<^verbatim>\<open>debug\<close> returns
  normally after both.
\<close>

theorem debug_all_isolates_failures_witness:
  "registry_file world_registered = Some (json_dumps example_registry)
   \<and> json_loads (json_dumps example_registry) = Some example_registry
   \<and> files example_registry = [] @ (''.FILE'', ''a.py'') # [(''.FILE2'', ''b.py'')]
   \<and> run_path env_raise_then_exit [debug_header (''.FILE'', ''a.py'')] ''a.py''
       = Some (Error ''ValueError'')
   \<and> run_path env_raise_then_exit
        [debug_header (''.FILE'', ''a.py''), RunPath ''a.py'',
         Print ''----- ERROR TRACEBACK -----'',
         Print (format_exc env_raise_then_exit (Error ''ValueError'')),
         Print ''---------------------------'', debug_header (''.FILE2'', ''b.py'')] ''b.py''
       = Some (SystemExit 3)
   \<and> debug env_raise_then_exit None world_registered
       = run_targets env_raise_then_exit [(''.FILE2'', ''b.py'')]
           (world_registered\<lparr>events :=
              [debug_header (''.FILE'', ''a.py''), RunPath ''a.py'',
               Print ''----- ERROR TRACEBACK -----'',
               Print (format_exc env_raise_then_exit (Error ''ValueError'')),
               Print ''---------------------------'']\<rparr>)
   \<and> attempted (events (snd (debug env_raise_then_exit None world_registered)))
       = [''a.py'', ''b.py'']
   \<and> all_caught env_target_raises (events world_registered) (files example_registry)
   \<and> fst (debug env_target_raises None world_registered) = Inr ()
   \<and> events (snd (debug env_target_raises None world_registered))
        = foldl (\<lambda>h t. h @ target_events env_target_raises h t) (events world_registered)
            (files example_registry)
   \<and> attempted (events (snd (debug env_target_raises None world_registered)))
        = attempted (events world_registered) @ map snd (files example_registry)
   \<and> events (snd (debug env_target_raises None world_registered))
        = [Print (CHR 0x0A # ''[framepython] Debugging .FILE (a.py)''), RunPath ''a.py'',
           Print ''----- ERROR TRACEBACK -----'',
           Print ''Traceback (most recent call last): ...'',
           Print ''---------------------------'',
           Print (CHR 0x0A # ''[framepython] Debugging .FILE2 (b.py)''), RunPath ''b.py'']"
proof -
  have h1: "registry_file world_registered = Some (json_dumps example_registry)"
    by (simp add: world_registered_def save_registry_def)
  have h2: "json_loads (json_dumps example_registry) = Some example_registry"
    by (rule json_loads_dumps) (simp add: example_registry_def)
  have ev: "events world_registered = []"
    by (simp add: world_registered_def save_registry_def empty_world_def)
  have sp: "files example_registry = [] @ (''.FILE'', ''a.py'') # [(''.FILE2'', ''b.py'')]"
    by (simp add: example_registry_def)
  have ra: "run_path env_raise_then_exit [debug_header (''.FILE'', ''a.py'')] ''a.py''
       = Some (Error ''ValueError'')"
    by (simp add: env_raise_then_exit_def)
  have rb: "run_path env_raise_then_exit
        [debug_header (''.FILE'', ''a.py''), RunPath ''a.py'',
         Print ''----- ERROR TRACEBACK -----'',
         Print (format_exc env_raise_then_exit (Error ''ValueError'')),
         Print ''---------------------------'', debug_header (''.FILE2'', ''b.py'')] ''b.py''
       = Some (SystemExit 3)"
    by (simp add: env_raise_then_exit_def)
  have pa: "files example_registry = [] @ (''.FILE'', ''a.py'') # [(''.FILE2'', ''b.py'')]
      \<and> all_caught env_raise_then_exit (events world_registered) []
      \<and> run_path env_raise_then_exit
           (foldl (\<lambda>h t. h @ target_events env_raise_then_exit h t) (events world_registered) []
              @ [debug_header (''.FILE'', ''a.py'')]) (snd (''.FILE'', ''a.py''))
          = Some (Error ''ValueError'')
      \<and> is_Exception (Error ''ValueError'')"
    using sp ra by (simp add: ev)
  note t1 = debug_all_isolates_failures [OF h1 h2, where E = env_raise_then_exit
      and pre = "[]" and t = "(''.FILE'', ''a.py'')" and post = "[(''.FILE2'', ''b.py'')]"
      and e = "Error ''ValueError''"]
  have a: "debug env_raise_then_exit None world_registered
       = run_targets env_raise_then_exit [(''.FILE2'', ''b.py'')]
           (world_registered\<lparr>events :=
              [debug_header (''.FILE'', ''a.py''), RunPath ''a.py'',
               Print ''----- ERROR TRACEBACK -----'',
               Print (format_exc env_raise_then_exit (Error ''ValueError'')),
               Print ''---------------------------'']\<rparr>)"
    using mp [OF conjunct1 [OF t1] pa] by (simp add: ev)
  have at: "attempted (events (snd (debug env_raise_then_exit None world_registered)))
       = [''a.py'', ''b.py'']"
    by (simp add: debug_raise_then_exit_run attempted_def)
  have ac: "all_caught env_target_raises (events world_registered) (files example_registry)"
    by (simp add: ev example_registry_def escapes_def env_target_raises_def)
  note t2 = debug_all_isolates_failures [OF h1 h2, where E = env_target_raises
      and pre = "[]" and t = "(''.FILE'', ''a.py'')" and post = "[(''.FILE2'', ''b.py'')]"
      and e = "Error ''ValueError''"]
  note b = mp [OF conjunct2 [OF t2] ac]
  have c: "events (snd (debug env_target_raises None world_registered))
        = [Print (CHR 0x0A # ''[framepython] Debugging .FILE (a.py)''), RunPath ''a.py'',
           Print ''----- ERROR TRACEBACK -----'',
           Print ''Traceback (most recent call last): ...'',
           Print ''---------------------------'',
           Print (CHR 0x0A # ''[framepython] Debugging .FILE2 (b.py)''), RunPath ''b.py'']"
    by (simp add: debug_raises_run)
  show ?thesis
    by (rule conjI [OF h1 conjI [OF h2 conjI [OF sp conjI [OF ra conjI [OF rb conjI [OF a
          conjI [OF at conjI [OF ac conjI [OF conjunct1 [OF b]
          conjI [OF conjunct1 [OF conjunct2 [OF b]] conjI [OF conjunct2 [OF conjunct2 [OF b]] c]]]]]]]]]]])
qed

text \<open>
  Claim C2 as stated, for every exception, fails: \<^verbatim>\<open>a.py\<close> calls \<^verbatim>\<open>sys.exit(3)\<close>; \<^verbatim>\<open>SystemExit\<close>
  does not derive from \<^verbatim>\<open>Exception\<close>, the handler does not catch it, no banner is printed,
  \<^verbatim>\<open>b.py\<close> is never attempted, and the process ends with status 3.
\<close>

theorem debug_all_isolates_failures_counterexample:
  "files example_registry = [(''.FILE'', ''a.py''), (''.FILE2'', ''b.py'')]
   \<and> load_registry world_registered = (Inr example_registry, world_registered)
   \<and> run_path env_target_exits
        [Print (CHR 0x0A # ''[framepython] Debugging .FILE (a.py)'')] ''a.py'' = Some (SystemExit 3)
   \<and> fst (debug env_target_exits None world_registered) = Inl (SystemExit 3)
   \<and> events (snd (debug env_target_exits None world_registered))
        = [Print (CHR 0x0A # ''[framepython] Debugging .FILE (a.py)''), RunPath ''a.py'']
   \<and> exit_status (fst (debug env_target_exits None world_registered)) = 3"
proof -
  have run: "debug env_target_exits None world_registered =
     (Inl (SystemExit 3), world_registered\<lparr>events :=
        [Print (CHR 0x0A # ''[framepython] Debugging .FILE (a.py)''), RunPath ''a.py'']\<rparr>)"
    by (simp add: debug_def load_world_registered)
       (simp add: example_registry_def env_target_exits_def log_def world_registered_def
          save_registry_def empty_world_def)
  have a: "files example_registry = [(''.FILE'', ''a.py''), (''.FILE2'', ''b.py'')]"
    by (simp add: example_registry_def)
  have b: "run_path env_target_exits
        [Print (CHR 0x0A # ''[framepython] Debugging .FILE (a.py)'')] ''a.py'' = Some (SystemExit 3)"
    by (simp add: env_target_exits_def)
  have c: "fst (debug env_target_exits None world_registered) = Inl (SystemExit 3)"
    by (simp add: run)
  have d: "events (snd (debug env_target_exits None world_registered))
        = [Print (CHR 0x0A # ''[framepython] Debugging .FILE (a.py)''), RunPath ''a.py'']"
    by (simp add: run)
  have e: "exit_status (fst (debug env_target_exits None world_registered)) = 3"
    by (simp add: run)
  show ?thesis
    by (rule conjI [OF a conjI [OF load_world_registered conjI [OF b conjI [OF c conjI [OF d e]]]]])
qed

text \<open>
  Claim C3, as amended. When the registry file does not exist, \<^verbatim>\<open>load_registry\<close> prints the
  missing-registry message and ends the process with status 1. It is the only non-zero
  exit that the tool asks for itself: for a registry file that is absent or holds a
  registry document, whenever \<^verbatim>\<open>main\<close> ends with a non-zero status it ends by an exception
  \<open>e\<close>, which is that \<^verbatim>\<open>SystemExit(1)\<close> with the registry file missing, or an exception that
  nothing catches: \<^verbatim>\<open>os.listdir\<close> failing on the folder given, \<^verbatim>\<open>input\<close> at the end of the
  input, an import raising something other than \<^verbatim>\<open>ImportError\<close>, a \<^verbatim>\<open>pip install\<close> exiting
  with a status other than 0, or a target raising outside \<^verbatim>\<open>Exception\<close>.
\<close>

theorem nonzero_exit_only_when_registry_missing:
  assumes "\<forall>content. registry_file w = Some content \<longrightarrow> json_loads content \<noteq> None"
  shows "(registry_file w = None \<longrightarrow>
            load_registry w
              = (Inl (SystemExit 1),
                 log (Print ''[framepython] No project registered yet. Run --register first.'') w)
            \<and> exit_status (Inl (SystemExit 1)) = 1)
    \<and> (exit_status (fst (main E a w)) \<noteq> 0 \<longrightarrow>
          (\<exists>e. fst (main E a w) = Inl e
             \<and> ((e = SystemExit 1 \<and> registry_file w = None)
                \<or> (\<exists>folder. arg_folder a = Some folder
                      \<and> listdir E (normalize_folder folder) = None \<and> e = Error ''OSError'')
                \<or> (stdin_line E = None \<and> e = Error ''EOFError'')
                \<or> (\<exists>h d. import_module E h d = Some e \<and> e \<noteq> ImportError)
                \<or> (\<exists>h dep. returncode E h (pip_argv E dep) \<noteq> 0
                       \<and> e = CalledProcessError (returncode E h (pip_argv E dep)))
                \<or> (\<exists>h f. run_path E h f = Some e \<and> \<not> is_Exception e))))"
proof (intro conjI impI)
  assume "registry_file w = None"
  then show "load_registry w
      = (Inl (SystemExit 1),
         log (Print ''[framepython] No project registered yet. Run --register first.'') w)"
    by (rule load_registry_None)
next
  show "exit_status (Inl (SystemExit 1)) = 1" by simp
next
  assume nz: "exit_status (fst (main E a w)) \<noteq> 0"
  then obtain e where e: "fst (main E a w) = Inl e"
    by (cases "fst (main E a w)") auto
  define M where "M \<longleftrightarrow> e = SystemExit 1 \<and> registry_file w = None"
  define L where "L \<longleftrightarrow> (\<exists>folder. arg_folder a = Some folder
                      \<and> listdir E (normalize_folder folder) = None \<and> e = Error ''OSError'')"
  define I where "I \<longleftrightarrow> stdin_line E = None \<and> e = Error ''EOFError''"
  define X where "X \<longleftrightarrow> (\<exists>h d. import_module E h d = Some e \<and> e \<noteq> ImportError)"
  define P where "P \<longleftrightarrow> (\<exists>h dep. returncode E h (pip_argv E dep) \<noteq> 0
                       \<and> e = CalledProcessError (returncode E h (pip_argv E dep)))"
  define T where "T \<longleftrightarrow> (\<exists>h f. run_path E h f = Some e \<and> \<not> is_Exception e)"
  have reg: "\<And>folder. arg_folder a = Some folder \<Longrightarrow> fst (register E folder w) = Inl e
      \<Longrightarrow> L \<or> I \<or> X \<or> P"
    using register_Inl unfolding L_def I_def X_def P_def by blast
  have lst: "fst (list_files w) = Inl e \<Longrightarrow> M"
    using list_files_Inl [OF assms] unfolding M_def by blast
  have cmp: "\<And>s. fst (compile_file E s w) = Inl e \<Longrightarrow> M"
    using compile_file_Inl [OF assms] unfolding M_def by blast
  have dbg: "\<And>d. fst (debug E d w) = Inl e \<Longrightarrow> M \<or> T"
    using debug_Inl [OF assms] unfolding M_def T_def by blast
  have "M \<or> L \<or> I \<or> X \<or> P \<or> T"
  proof (cases "arg_register a")
    case True
    show ?thesis
    proof (cases "arg_folder a")
      case None
      then show ?thesis using e True by (simp add: main_def)
    next
      case (Some folder)
      show ?thesis
      proof (cases "truthy folder")
        case False
        then show ?thesis using e True Some by (simp add: main_def)
      next
        case t: True
        then have "fst (register E folder w) = Inl e" using e True Some by (simp add: main_def)
        from reg [OF Some this] show ?thesis by blast
      qed
    qed
  next
    case nr: False
    show ?thesis
    proof (cases "arg_list a")
      case True
      then have "fst (list_files w) = Inl e" using e nr by (simp add: main_def)
      from lst [OF this] show ?thesis by blast
    next
      case nl: False
      show ?thesis
      proof (cases "truthy_debug (arg_debug a)")
        case True
        then have "\<exists>d. fst (debug E d w) = Inl e"
          using e nr nl by (cases "arg_debug a") (auto simp: main_def)
        then show ?thesis using dbg by blast
      next
        case nd: False
        show ?thesis
        proof (cases "arg_compile a")
          case None
          then show ?thesis using e nr nl nd by (simp add: main_def)
        next
          case (Some s)
          show ?thesis
          proof (cases "truthy s")
            case True
            then have "fst (compile_file E s w) = Inl e"
              using e nr nl nd Some by (simp add: main_def)
            from cmp [OF this] show ?thesis by blast
          next
            case False
            then show ?thesis using e nr nl nd Some by (simp add: main_def)
          qed
        qed
      qed
    qed
  qed
  then show "\<exists>e. fst (main E a w) = Inl e
             \<and> ((e = SystemExit 1 \<and> registry_file w = None)
                \<or> (\<exists>folder. arg_folder a = Some folder
                      \<and> listdir E (normalize_folder folder) = None \<and> e = Error ''OSError'')
                \<or> (stdin_line E = None \<and> e = Error ''EOFError'')
                \<or> (\<exists>h d. import_module E h d = Some e \<and> e \<noteq> ImportError)
                \<or> (\<exists>h dep. returncode E h (pip_argv E dep) \<noteq> 0
                       \<and> e = CalledProcessError (returncode E h (pip_argv E dep)))
                \<or> (\<exists>h f. run_path E h f = Some e \<and> \<not> is_Exception e))"
    using e unfolding M_def L_def I_def X_def P_def T_def by blast
qed

text \<open>Claim C3, witness: \<^verbatim>\<open>--list\<close> with no registry file.\<close>

theorem nonzero_exit_only_when_registry_missing_witness:
  "registry_file empty_world = None
   \<and> load_registry empty_world
       = (Inl (SystemExit 1),
          log (Print ''[framepython] No project registered yet. Run --register first.'') empty_world)
   \<and> exit_status (fst (main env_quiet args_list empty_world)) = 1
   \<and> fst (main env_quiet args_list empty_world) = Inl (SystemExit 1)
   \<and> (\<exists>e. fst (main env_quiet args_list empty_world) = Inl e
         \<and> ((e = SystemExit 1 \<and> registry_file empty_world = None)
            \<or> (\<exists>folder. arg_folder args_list = Some folder
                  \<and> listdir env_quiet (normalize_folder folder) = None \<and> e = Error ''OSError'')
            \<or> (stdin_line env_quiet = None \<and> e = Error ''EOFError'')
            \<or> (\<exists>h d. import_module env_quiet h d = Some e \<and> e \<noteq> ImportError)
            \<or> (\<exists>h dep. returncode env_quiet h (pip_argv env_quiet dep) \<noteq> 0
                   \<and> e = CalledProcessError (returncode env_quiet h (pip_argv env_quiet dep)))
            \<or> (\<exists>h f. run_path env_quiet h f = Some e \<and> \<not> is_Exception e)))"
proof -
  have doc: "\<forall>content. registry_file empty_world = Some content \<longrightarrow> json_loads content \<noteq> None"
    by (simp add: empty_world_def)
  have none: "registry_file empty_world = None" by (simp add: empty_world_def)
  have m: "fst (main env_quiet args_list empty_world) = Inl (SystemExit 1)"
    by (simp add: main_def args_list_def list_files_def load_registry_def empty_world_def)
  have st: "exit_status (fst (main env_quiet args_list empty_world)) = 1"
    by (simp add: m)
  have nz: "exit_status (fst (main env_quiet args_list empty_world)) \<noteq> 0"
    by (simp add: m)
  note t = nonzero_exit_only_when_registry_missing [OF doc, of env_quiet args_list]
  have a: "load_registry empty_world
       = (Inl (SystemExit 1),
          log (Print ''[framepython] No project registered yet. Run --register first.'') empty_world)"
    by (rule conjunct1 [OF mp [OF conjunct1 [OF t] none]])
  note b = mp [OF conjunct2 [OF t] nz]
  show ?thesis
    by (rule conjI [OF none conjI [OF a conjI [OF st conjI [OF m b]]]])
qed

text \<open>
  Claim C3 as stated, that a missing registry is the only way to a non-zero exit, fails:
  the registry file exists, \<^verbatim>\<open>--register --folder current\<close> runs \<^verbatim>\<open>pip install\<close>, which exits
  with 1, the \<^verbatim>\<open>CalledProcessError\<close> is never caught, and the process ends with status 1.
\<close>

theorem nonzero_exit_only_when_registry_missing_counterexample:
  "registry_file world_registered = Some (json_dumps example_registry)
   \<and> fst (main env_pip_fails args_register_current world_registered) = Inl (CalledProcessError 1)
   \<and> exit_status (fst (main env_pip_fails args_register_current world_registered)) = 1"
proof -
  have m: "main env_pip_fails args_register_current world_registered
      = register env_pip_fails ''current'' world_registered"
    by (simp add: main_def args_register_current_def truthy_def)
  have a: "registry_file world_registered = Some (json_dumps example_registry)"
    by (simp add: world_registered_def save_registry_def)
  have b: "fst (main env_pip_fails args_register_current world_registered) = Inl (CalledProcessError 1)"
    by (simp add: m register_pip_fails_run)
  have c: "exit_status (fst (main env_pip_fails args_register_current world_registered)) = 1"
    by (simp add: b)
  show ?thesis by (rule conjI [OF a conjI [OF b c]])
qed

text \<open>
  Claim C4, as amended. For an alias \<open>A\<close> that is not a key of the loaded registry's
  \<open>files\<close>: \<^verbatim>\<open>compile_file(A)\<close> prints the not-registered message and returns, and so does
  \<^verbatim>\<open>debug(A)\<close> when \<open>A\<close> is not the empty string. Nothing else happens (no target is
  run, no subprocess is started), and the status of a process that ends there is 0.
\<close>

theorem unknown_alias_reported:
  assumes "registry_file w = Some content" and "json_loads content = Some reg"
    and "\<not> dict_contains A (files reg)"
  shows "(A \<noteq> [] \<longrightarrow>
            debug E (Some A) w
              = (Inr (), log (Print (''[framepython] '' @ A @ '' not registered.'')) w)
            \<and> exit_status (fst (debug E (Some A) w)) = 0)
    \<and> compile_file E A w
         = (Inr (), log (Print (''[framepython] '' @ A @ '' not registered.'')) w)
    \<and> exit_status (fst (compile_file E A w)) = 0"
  using load_registry_Some [OF assms(1) assms(2)] assms(3)
  by (simp add: debug_def compile_file_def truthy_def)

text \<open>Claim C4, witness: the alias \<^verbatim>\<open>.FILE9\<close> with two registered files.\<close>

theorem unknown_alias_reported_witness:
  "registry_file world_registered = Some (json_dumps example_registry)
   \<and> json_loads (json_dumps example_registry) = Some example_registry
   \<and> \<not> dict_contains ''.FILE9'' (files example_registry)
   \<and> debug env_ok (Some ''.FILE9'') world_registered
       = (Inr (), log (Print (''[framepython] '' @ ''.FILE9'' @ '' not registered.'')) world_registered)
   \<and> compile_file env_ok ''.FILE9'' world_registered
       = (Inr (), log (Print (''[framepython] '' @ ''.FILE9'' @ '' not registered.'')) world_registered)
   \<and> exit_status (fst (compile_file env_ok ''.FILE9'' world_registered)) = 0"
proof -
  have h1: "registry_file world_registered = Some (json_dumps example_registry)"
    by (simp add: world_registered_def save_registry_def)
  have h2: "json_loads (json_dumps example_registry) = Some example_registry"
    by (rule json_loads_dumps) (simp add: example_registry_def)
  have h3: "\<not> dict_contains ''.FILE9'' (files example_registry)"
    by (simp add: dict_contains_def example_registry_def)
  have ne: "''.FILE9'' \<noteq> []" by simp
  note t = unknown_alias_reported [OF h1 h2 h3, of env_ok]
  have d: "debug env_ok (Some ''.FILE9'') world_registered
       = (Inr (), log (Print (''[framepython] '' @ ''.FILE9'' @ '' not registered.'')) world_registered)"
    by (rule conjunct1 [OF mp [OF conjunct1 [OF t] ne]])
  show ?thesis
    by (rule conjI [OF h1 conjI [OF h2 conjI [OF h3 conjI [OF d conjunct2 [OF t]]]]])
qed

text \<open>
  Claim C4 as stated, for every absent alias, fails for \<^verbatim>\<open>debug\<close> at the empty string: it is
  not a key of the registry, but \<^verbatim>\<open>if dotfile:\<close> takes it for no alias and \<^verbatim>\<open>debug("")\<close> runs
  both registered files.
\<close>

theorem unknown_alias_reported_counterexample:
  "load_registry world_registered = (Inr example_registry, world_registered)
   \<and> \<not> dict_contains [] (files example_registry)
   \<and> fst (debug env_ok (Some []) world_registered) = Inr ()
   \<and> events (snd (debug env_ok (Some []) world_registered))
       = [Print (CHR 0x0A # ''[framepython] Debugging .FILE (a.py)''), RunPath ''a.py'',
          Print (CHR 0x0A # ''[framepython] Debugging .FILE2 (b.py)''), RunPath ''b.py'']"
proof -
  have run: "debug env_ok (Some []) world_registered =
     (Inr (), world_registered\<lparr>events :=
        [Print (CHR 0x0A # ''[framepython] Debugging .FILE (a.py)''), RunPath ''a.py'',
         Print (CHR 0x0A # ''[framepython] Debugging .FILE2 (b.py)''), RunPath ''b.py'']\<rparr>)"
    by (simp add: debug_def load_world_registered truthy_def)
       (simp add: example_registry_def env_ok_def log_def world_registered_def
          save_registry_def empty_world_def)
  have a: "\<not> dict_contains [] (files example_registry)"
    by (simp add: dict_contains_def example_registry_def)
  have b: "fst (debug env_ok (Some []) world_registered) = Inr ()"
    by (simp add: run)
  have c: "events (snd (debug env_ok (Some []) world_registered))
       = [Print (CHR 0x0A # ''[framepython] Debugging .FILE (a.py)''), RunPath ''a.py'',
          Print (CHR 0x0A # ''[framepython] Debugging .FILE2 (b.py)''), RunPath ''b.py'']"
    by (simp add: run)
  show ?thesis
    by (rule conjI [OF load_world_registered conjI [OF a conjI [OF b c]]])
qed

text \<open>
  Claim C5, as amended. Whenever re-running \<^verbatim>\<open>register(F)\<close> returns, it behaves the same
  for every previous content \<open>old\<close>, \<open>old'\<close> of the registry file (results and final worlds
  are equal), and the registry then persisted is built from the listing of \<open>F\<close> and the
  new input line alone: nothing of the old registry is merged in.
\<close>

theorem register_replaces_registry:
  assumes "fst (register E F (w\<lparr>registry_file := old\<rparr>)) = Inr ()"
  shows "register E F (w\<lparr>registry_file := old'\<rparr>) = register E F (w\<lparr>registry_file := old\<rparr>)
    \<and> (\<exists>entries libs.
          listdir E (normalize_folder F) = Some entries \<and> stdin_line E = Some libs
          \<and> load_registry (snd (register E F (w\<lparr>registry_file := old\<rparr>)))
              = (Inr \<lparr>files = zip (map spec_alias [1 ..< Suc (length (filter (\<lambda>f. endswith f ''.py'') entries))])
                                (filter (\<lambda>f. endswith f ''.py'') entries),
                      dependencies = filter truthy (map strip (split (CHR '','') libs))\<rparr>,
                 snd (register E F (w\<lparr>registry_file := old\<rparr>))))"
proof -
  define p where "p = Prompt ''Enter libraries (comma+space separated): ''"
  from assms obtain entries libs w2 where
    ls: "listdir E (normalize_folder F) = Some entries" and
    inp: "stdin_line E = Some libs" and
    ei: "ensure_installed E (filter truthy (map strip (split (CHR '','') libs)))
           (log p (w\<lparr>registry_file := old\<rparr>)) = (Inr (), w2)"
    unfolding p_def by (rule register_Inr_cases)
  define deps where "deps = filter truthy (map strip (split (CHR '','') libs))"
  define reg where "reg = \<lparr>files = zip (map spec_alias [1 ..< Suc (length (filter (\<lambda>f. endswith f ''.py'') entries))])
                                (filter (\<lambda>f. endswith f ''.py'') entries),
                      dependencies = deps\<rparr>"
  have l: "\<And>c. log p (w\<lparr>registry_file := c\<rparr>) = (log p w)\<lparr>registry_file := c\<rparr>"
    by (simp add: log_def)
  have a: "ensure_installed E deps ((log p w)\<lparr>registry_file := old\<rparr>)
      = (fst (ensure_installed E deps (log p w)), (snd (ensure_installed E deps (log p w)))\<lparr>registry_file := old\<rparr>)"
    by (rule ensure_installed_ignores_file)
  have b: "ensure_installed E deps ((log p w)\<lparr>registry_file := old'\<rparr>)
      = (fst (ensure_installed E deps (log p w)), (snd (ensure_installed E deps (log p w)))\<lparr>registry_file := old'\<rparr>)"
    by (rule ensure_installed_ignores_file)
  define v where "v = snd (ensure_installed E deps (log p w))"
  have ok: "fst (ensure_installed E deps (log p w)) = Inr ()" and w2: "w2 = v\<lparr>registry_file := old\<rparr>"
    using ei a by (simp_all add: l deps_def v_def)
  have ei': "ensure_installed E deps (log p (w\<lparr>registry_file := old'\<rparr>)) = (Inr (), v\<lparr>registry_file := old'\<rparr>)"
    using b ok by (simp add: l v_def)
  have r1: "register E F (w\<lparr>registry_file := old\<rparr>)
      = (Inr (), log (Print ''[framepython] Project registered!'') (save_registry reg w2))"
    using register_success [OF ls inp, of "w\<lparr>registry_file := old\<rparr>" w2] ei
    by (simp add: p_def reg_def deps_def)
  have r2: "register E F (w\<lparr>registry_file := old'\<rparr>)
      = (Inr (), log (Print ''[framepython] Project registered!'') (save_registry reg (v\<lparr>registry_file := old'\<rparr>)))"
    using register_success [OF ls inp, of "w\<lparr>registry_file := old'\<rparr>" "v\<lparr>registry_file := old'\<rparr>"] ei'
    by (simp add: p_def reg_def deps_def)
  have same: "save_registry reg (v\<lparr>registry_file := old'\<rparr>) = save_registry reg w2"
    by (simp add: save_registry_def w2)
  have eq: "register E F (w\<lparr>registry_file := old'\<rparr>) = register E F (w\<lparr>registry_file := old\<rparr>)"
    by (simp only: r1 r2 same)
  have dist: "distinct (map fst (files reg))"
    using distinct_spec_aliases [of "length (filter (\<lambda>f. endswith f ''.py'') entries)"]
    by (simp add: reg_def del: upt_Suc)
  have written: "registry_file (snd (register E F (w\<lparr>registry_file := old\<rparr>))) = Some (json_dumps reg)"
    by (simp add: r1 log_def save_registry_def)
  have "load_registry (snd (register E F (w\<lparr>registry_file := old\<rparr>)))
      = (Inr reg, snd (register E F (w\<lparr>registry_file := old\<rparr>)))"
    using written dist by (rule load_registry_dumps)
  then show ?thesis using eq ls inp unfolding reg_def deps_def by blast
qed

text \<open>
  Claim C5, witness: registering over a file that holds \<^const>\<open>example_registry\<close> and over no
  file at all.
\<close>

theorem register_replaces_registry_witness:
  "fst (register env_ok ''current'' (empty_world\<lparr>registry_file := Some (json_dumps example_registry)\<rparr>)) = Inr ()
   \<and> register env_ok ''current'' (empty_world\<lparr>registry_file := None\<rparr>)
       = register env_ok ''current'' (empty_world\<lparr>registry_file := Some (json_dumps example_registry)\<rparr>)
   \<and> (\<exists>entries libs.
          listdir env_ok (normalize_folder ''current'') = Some entries \<and> stdin_line env_ok = Some libs
          \<and> load_registry (snd (register env_ok ''current''
                (empty_world\<lparr>registry_file := Some (json_dumps example_registry)\<rparr>)))
              = (Inr \<lparr>files = zip (map spec_alias [1 ..< Suc (length (filter (\<lambda>f. endswith f ''.py'') entries))])
                                (filter (\<lambda>f. endswith f ''.py'') entries),
                      dependencies = filter truthy (map strip (split (CHR '','') libs))\<rparr>,
                 snd (register env_ok ''current''
                   (empty_world\<lparr>registry_file := Some (json_dumps example_registry)\<rparr>))))"
proof -
  have h: "fst (register env_ok ''current''
      (empty_world\<lparr>registry_file := Some (json_dumps example_registry)\<rparr>)) = Inr ()"
    by (simp add: register_def env_ok_def empty_world_def normalize_folder_def endswith_def
        strip_def is_space_def truthy_def log_def Let_def)
  show ?thesis
    by (rule conjI [OF h register_replaces_registry [OF h]])
qed

text \<open>
  Claim C5 as stated, for every re-run, fails: the folder no longer holds \<^verbatim>\<open>b.py\<close>, but
  \<^verbatim>\<open>pip install\<close> exits with status 1, \<^verbatim>\<open>register\<close> raises before it saves, and the old
  registry with the alias \<^verbatim>\<open>.FILE2\<close> is still the persisted one.
\<close>

theorem register_replaces_registry_counterexample:
  "listdir env_pip_fails (normalize_folder ''current'') = Some [''a.py'', ''notes.txt'']
   \<and> fst (register env_pip_fails ''current'' world_registered) = Inl (CalledProcessError 1)
   \<and> load_registry (snd (register env_pip_fails ''current'' world_registered))
       = (Inr example_registry, snd (register env_pip_fails ''current'' world_registered))
   \<and> files example_registry = [(''.FILE'', ''a.py''), (''.FILE2'', ''b.py'')]"
proof -
  have d: "distinct (map fst (files example_registry))" by (simp add: example_registry_def)
  have f: "registry_file (snd (register env_pip_fails ''current'' world_registered))
      = Some (json_dumps example_registry)"
    by (simp add: register_pip_fails_run) (simp add: world_registered_def save_registry_def)
  have "load_registry (snd (register env_pip_fails ''current'' world_registered))
       = (Inr example_registry, snd (register env_pip_fails ''current'' world_registered))"
    using f d by (rule load_registry_dumps)
  moreover have "listdir env_pip_fails (normalize_folder ''current'') = Some [''a.py'', ''notes.txt'']"
    by (simp add: env_pip_fails_def normalize_folder_def)
  moreover have "files example_registry = [(''.FILE'', ''a.py''), (''.FILE2'', ''b.py'')]"
    by (simp add: example_registry_def)
  moreover have "fst (register env_pip_fails ''current'' world_registered) = Inl (CalledProcessError 1)"
    by (simp add: register_pip_fails_run)
  ultimately show ?thesis by (intro conjI)
qed

text \<open>
  Claim C6. For a registry file that was last written by \<^verbatim>\<open>save_registry\<close> and not modified
  since, \<^verbatim>\<open>save_registry(load_registry())\<close> leaves the file as it was, byte for byte: the
  loaded registry is the one that was saved, with its keys in insertion order, and
  writing it again gives the same world. The keys of \<open>files\<close> are distinct, as the keys of
  a Python dictionary are.
\<close>

theorem save_load_roundtrip:
  assumes "distinct (map fst (files r))" and "w = save_registry r w0"
  shows "load_registry w = (Inr r, w)
    \<and> (case load_registry w of
          (Inr reg, w1) \<Rightarrow> save_registry reg w1 = w \<and> registry_file (save_registry reg w1) = Some (json_dumps r)
        | (Inl e, w1) \<Rightarrow> False)"
  using assms by (simp add: load_after_save) (simp add: save_registry_def)

text \<open>Claim C6, witness: \<^const>\<open>example_registry\<close> saved into the empty world.\<close>

theorem save_load_roundtrip_witness:
  "distinct (map fst (files example_registry))
   \<and> load_registry (save_registry example_registry empty_world)
       = (Inr example_registry, save_registry example_registry empty_world)
   \<and> (case load_registry (save_registry example_registry empty_world) of
          (Inr reg, w1) \<Rightarrow> save_registry reg w1 = save_registry example_registry empty_world
             \<and> registry_file (save_registry reg w1) = Some (json_dumps example_registry)
        | (Inl e, w1) \<Rightarrow> False)"
proof -
  have d: "distinct (map fst (files example_registry))"
    by (simp add: example_registry_def)
  from save_load_roundtrip [OF d refl, of empty_world] d show ?thesis by blast
qed

text \<open>
  Claim C7, as amended. For every parsed command line \<^verbatim>\<open>main\<close> performs exactly one action,
  the one \<^const>\<open>select_action\<close> chooses by first match: register (only a usage line when
  \<^verbatim>\<open>--folder\<close> is missing or empty), list, debug, compile, help; an empty value of
  \<^verbatim>\<open>--debug\<close> or \<^verbatim>\<open>--compile\<close> counts as the option not given. When neither \<^verbatim>\<open>--register\<close> nor
  \<^verbatim>\<open>--list\<close> is given, \<^verbatim>\<open>--debug\<close> with no value runs \<^verbatim>\<open>debug\<close> over all registered files, and
  \<^verbatim>\<open>--debug ALIAS\<close> with a non-empty alias runs \<^verbatim>\<open>debug\<close> on that alias.
\<close>

theorem main_dispatches_one_action:
  "main E a w = perform E (select_action a) w
   \<and> (\<not> arg_register a \<and> \<not> arg_list a \<and> arg_debug a = DebugTrue \<longrightarrow>
        main E a w = debug E None w)
   \<and> (\<not> arg_register a \<and> \<not> arg_list a \<and> arg_debug a = DebugAlias s \<and> s \<noteq> [] \<longrightarrow>
        main E a w = debug E (Some s) w)"
  by (cases "arg_debug a")
    (auto simp: main_def select_action_def compile_or_help_def truthy_def split: option.splits)

text \<open>Claim C7, witness: \<^verbatim>\<open>--debug .FILE2 --compile .FILE\<close> runs \<^verbatim>\<open>debug\<close> on \<^verbatim>\<open>.FILE2\<close>.\<close>

theorem main_dispatches_one_action_witness:
  "\<not> arg_register args_debug_alias \<and> \<not> arg_list args_debug_alias
   \<and> arg_debug args_debug_alias = DebugAlias ''.FILE2''
   \<and> select_action args_debug_alias = DoDebug ''.FILE2''
   \<and> main env_quiet args_debug_alias world_registered
       = perform env_quiet (select_action args_debug_alias) world_registered
   \<and> main env_quiet args_debug_alias world_registered
       = debug env_quiet (Some ''.FILE2'') world_registered"
proof -
  have h1: "\<not> arg_register args_debug_alias" by (simp add: args_debug_alias_def)
  have h2: "\<not> arg_list args_debug_alias" by (simp add: args_debug_alias_def)
  have h3: "arg_debug args_debug_alias = DebugAlias ''.FILE2''" by (simp add: args_debug_alias_def)
  have h4: "''.FILE2'' \<noteq> []" by simp
  have sel: "select_action args_debug_alias = DoDebug ''.FILE2''"
    by (simp add: select_action_def args_debug_alias_def)
  note t = main_dispatches_one_action [of env_quiet args_debug_alias world_registered "''.FILE2''"]
  have a: "main env_quiet args_debug_alias world_registered
       = perform env_quiet (select_action args_debug_alias) world_registered"
    by (rule conjunct1 [OF t])
  have b: "main env_quiet args_debug_alias world_registered
       = debug env_quiet (Some ''.FILE2'') world_registered"
    by (rule mp [OF conjunct2 [OF conjunct2 [OF t]] conjI [OF h1 conjI [OF h2 conjI [OF h3 h4]]]])
  show ?thesis
    by (rule conjI [OF h1 conjI [OF h2 conjI [OF h3 conjI [OF sel conjI [OF a b]]]]])
qed

text \<open>
  Claim C7 as stated fails twice: \<^verbatim>\<open>--debug ""\<close> does not run \<^verbatim>\<open>debug\<close> on that alias (it
  prints the help text, which is not what \<^verbatim>\<open>debug("")\<close> does), and \<^verbatim>\<open>--register\<close> without
  \<^verbatim>\<open>--folder\<close> performs none of the five actions (it prints a usage line, neither
  registering nor printing the help text).
\<close>

theorem main_dispatches_one_action_counterexample:
  "arg_debug args_debug_empty = DebugAlias []
   \<and> main env_quiet args_debug_empty world_registered = (Inr (), log PrintHelp world_registered)
   \<and> main env_quiet args_debug_empty world_registered
       \<noteq> debug env_quiet (Some []) world_registered
   \<and> arg_register args_register_only
   \<and> main env_quiet args_register_only world_registered
       = (Inr (), log (Print ''Usage: framepython --register --folder current'') world_registered)
   \<and> main env_quiet args_register_only world_registered \<noteq> (Inr (), log PrintHelp world_registered)"
proof -
  have a: "arg_debug args_debug_empty = DebugAlias []" by (simp add: args_debug_empty_def)
  have b: "main env_quiet args_debug_empty world_registered = (Inr (), log PrintHelp world_registered)"
    by (simp add: main_def args_debug_empty_def truthy_def)
  have d: "events (snd (debug env_quiet (Some []) world_registered))
      \<noteq> events (log PrintHelp world_registered)"
    by (simp add: debug_def load_world_registered truthy_def)
       (simp add: example_registry_def env_quiet_def log_def world_registered_def
          save_registry_def empty_world_def)
  have c: "main env_quiet args_debug_empty world_registered
       \<noteq> debug env_quiet (Some []) world_registered"
  proof
    assume "main env_quiet args_debug_empty world_registered
       = debug env_quiet (Some []) world_registered"
    then have "debug env_quiet (Some []) world_registered = (Inr (), log PrintHelp world_registered)"
      unfolding b by (rule sym)
    then have "events (snd (debug env_quiet (Some []) world_registered))
       = events (snd (Inr () :: exn + unit, log PrintHelp world_registered))"
      by (rule arg_cong)
    with d show False by simp
  qed
  have e: "arg_register args_register_only" by (simp add: args_register_only_def)
  have f: "main env_quiet args_register_only world_registered
       = (Inr (), log (Print ''Usage: framepython --register --folder current'') world_registered)"
    by (simp add: main_def args_register_only_def)
  have g: "main env_quiet args_register_only world_registered \<noteq> (Inr (), log PrintHelp world_registered)"
  proof
    assume "main env_quiet args_register_only world_registered = (Inr (), log PrintHelp world_registered)"
    then have "log (Print ''Usage: framepython --register --folder current'') world_registered
        = log PrintHelp world_registered"
      unfolding f by simp
    then have "events (log (Print ''Usage: framepython --register --folder current'') world_registered)
        = events (log PrintHelp world_registered)"
      by (rule arg_cong)
    then show False by (simp add: log_def)
  qed
  show ?thesis
    by (rule conjI [OF a conjI [OF b conjI [OF c conjI [OF e conjI [OF f g]]]]])
qed

text \<open>
  Claim C8. \<^verbatim>\<open>register\<close> calls \<^verbatim>\<open>ensure_installed\<close> before \<^verbatim>\<open>save_registry\<close>: when a
  \<^verbatim>\<open>check_call\<close> of its run (the \<^verbatim>\<open>pip\<close> subprocess, started after the events \<open>events w @ pre\<close>)
  exits with a status other than 0, that call is the last thing \<^verbatim>\<open>register\<close> does, the
  result is the \<^verbatim>\<open>CalledProcessError\<close> raised by \<^verbatim>\<open>check_call\<close>, and the registry file is what it
  was before.
\<close>

theorem register_atomic_on_pip_failure:
  assumes "events (snd (register E F w)) = events w @ pre @ CheckCall argv # post"
    and "returncode E (events w @ pre) argv \<noteq> 0"
  shows "post = []
    \<and> fst (register E F w) = Inl (CalledProcessError (returncode E (events w @ pre) argv))
    \<and> registry_file (snd (register E F w)) = registry_file w"
proof -
  have a: "post = [] \<and> fst (register E F w) = Inl (CalledProcessError (returncode E (events w @ pre) argv))"
    using assms by (rule register_pip_failure)
  then have "fst (register E F w) \<noteq> Inr ()" by simp
  then have "registry_file (snd (register E F w)) = registry_file w"
    by (rule register_failure_keeps_file)
  with a show ?thesis by simp
qed

text \<open>
  Claim C8, witness: \<^verbatim>\<open>pip install nosuchpkg\<close> exits with status 1 while
  \<^const>\<open>example_registry\<close> is the persisted registry.
\<close>

theorem register_atomic_on_pip_failure_witness:
  "events (snd (register env_pip_fails ''current'' world_registered))
     = events world_registered
       @ [Prompt ''Enter libraries (comma+space separated): '', Import ''nosuchpkg'',
          Print ''[framepython] Installing nosuchpkg...'']
       @ CheckCall [''python3'', ''-m'', ''pip'', ''install'', ''nosuchpkg''] # []
   \<and> returncode env_pip_fails
        (events world_registered
         @ [Prompt ''Enter libraries (comma+space separated): '', Import ''nosuchpkg'',
            Print ''[framepython] Installing nosuchpkg...''])
        [''python3'', ''-m'', ''pip'', ''install'', ''nosuchpkg''] = 1
   \<and> fst (register env_pip_fails ''current'' world_registered) = Inl (CalledProcessError 1)
   \<and> registry_file (snd (register env_pip_fails ''current'' world_registered))
       = Some (json_dumps example_registry)"
proof -
  have h1: "events (snd (register env_pip_fails ''current'' world_registered))
     = events world_registered
       @ [Prompt ''Enter libraries (comma+space separated): '', Import ''nosuchpkg'',
          Print ''[framepython] Installing nosuchpkg...'']
       @ CheckCall [''python3'', ''-m'', ''pip'', ''install'', ''nosuchpkg''] # []"
    by (simp add: register_pip_fails_run) (simp add: world_registered_def empty_world_def save_registry_def)
  have rc: "returncode env_pip_fails
        (events world_registered
         @ [Prompt ''Enter libraries (comma+space separated): '', Import ''nosuchpkg'',
            Print ''[framepython] Installing nosuchpkg...''])
        [''python3'', ''-m'', ''pip'', ''install'', ''nosuchpkg''] = 1"
    by (simp add: env_pip_fails_def)
  have h2: "returncode env_pip_fails
        (events world_registered
         @ [Prompt ''Enter libraries (comma+space separated): '', Import ''nosuchpkg'',
            Print ''[framepython] Installing nosuchpkg...''])
        [''python3'', ''-m'', ''pip'', ''install'', ''nosuchpkg''] \<noteq> 0"
    unfolding rc by simp
  have f: "registry_file world_registered = Some (json_dumps example_registry)"
    by (simp add: world_registered_def save_registry_def)
  note t = register_atomic_on_pip_failure [OF h1 h2]
  from t have "fst (register env_pip_fails ''current'' world_registered) = Inl (CalledProcessError 1)"
    unfolding rc by (rule conjunct1 [OF conjunct2])
  moreover from t have "registry_file (snd (register env_pip_fails ''current'' world_registered))
       = Some (json_dumps example_registry)"
    unfolding f by (rule conjunct2 [OF conjunct2])
  ultimately show ?thesis using h1 rc by (intro conjI)
qed

text \<open>
  Claim C9. \<^verbatim>\<open>debug\<close> and \<^verbatim>\<open>compile_file\<close> load the registry before they look at the alias:
  with no registry file, whatever the argument, each prints the missing-registry message
  and ends the process with status 1, and what it printed is not the not-registered
  message of any alias \<open>A\<close>; so that message is reached only when the file exists.
\<close>

theorem missing_registry_checked_first:
  assumes "registry_file w = None"
  shows "debug E dotfile w
      = (Inl (SystemExit 1),
         log (Print ''[framepython] No project registered yet. Run --register first.'') w)
    \<and> compile_file E alias w
      = (Inl (SystemExit 1),
         log (Print ''[framepython] No project registered yet. Run --register first.'') w)
    \<and> exit_status (fst (debug E dotfile w)) = 1
    \<and> exit_status (fst (compile_file E alias w)) = 1
    \<and> events (snd (debug E dotfile w))
        \<noteq> events w @ [Print (''[framepython] '' @ A @ '' not registered.'')]
    \<and> events (snd (compile_file E alias w))
        \<noteq> events w @ [Print (''[framepython] '' @ A @ '' not registered.'')]"
  using load_registry_None [OF assms] missing_message_differs [of A]
  by (simp add: debug_def compile_file_def log_def)

text \<open>Claim C9, witness: \<^verbatim>\<open>debug(".FILE")\<close> and \<^verbatim>\<open>compile_file(".FILE")\<close> with no registry file.\<close>

theorem missing_registry_checked_first_witness:
  "registry_file empty_world = None
   \<and> debug env_ok (Some ''.FILE'') empty_world
      = (Inl (SystemExit 1),
         log (Print ''[framepython] No project registered yet. Run --register first.'') empty_world)
    \<and> compile_file env_ok ''.FILE'' empty_world
      = (Inl (SystemExit 1),
         log (Print ''[framepython] No project registered yet. Run --register first.'') empty_world)
    \<and> exit_status (fst (debug env_ok (Some ''.FILE'') empty_world)) = 1
    \<and> exit_status (fst (compile_file env_ok ''.FILE'' empty_world)) = 1
    \<and> events (snd (debug env_ok (Some ''.FILE'') empty_world))
        \<noteq> events empty_world @ [Print (''[framepython] '' @ ''.FILE'' @ '' not registered.'')]
    \<and> events (snd (compile_file env_ok ''.FILE'' empty_world))
        \<noteq> events empty_world @ [Print (''[framepython] '' @ ''.FILE'' @ '' not registered.'')]"
proof -
  have h: "registry_file empty_world = None" by (simp add: empty_world_def)
  show ?thesis
    by (rule conjI [OF h missing_registry_checked_first [OF h]])
qed

text \<open>
  Claim C10. When \<^verbatim>\<open>args.debug\<close> is the empty string, \<^verbatim>\<open>main\<close> behaves as if \<^verbatim>\<open>--debug\<close> had not
  been given: the debug branch is skipped, and when neither \<^verbatim>\<open>--register\<close> nor \<^verbatim>\<open>--list\<close> is
  given the dispatch falls through to \<^verbatim>\<open>compile_file\<close> (for a non-empty \<^verbatim>\<open>--compile\<close> value) or
  to the help text. The empty string never reaches \<^verbatim>\<open>debug\<close>.
\<close>

theorem empty_debug_alias_skips_debug:
  assumes "arg_debug a = DebugAlias []"
  shows "main E a w = main E (a\<lparr>arg_debug := DebugAbsent\<rparr>) w
    \<and> (\<not> arg_register a \<and> \<not> arg_list a \<longrightarrow>
         main E a w
           = (case arg_compile a of
                None \<Rightarrow> (Inr (), log PrintHelp w)
              | Some s \<Rightarrow> if truthy s then compile_file E s w else (Inr (), log PrintHelp w)))"
  using assms by (simp add: main_def truthy_def split: option.splits)

text \<open>Claim C10, witness: \<^verbatim>\<open>--debug ""\<close> alone prints the help text.\<close>

theorem empty_debug_alias_skips_debug_witness:
  "arg_debug args_debug_empty = DebugAlias []
   \<and> \<not> arg_register args_debug_empty \<and> \<not> arg_list args_debug_empty
   \<and> main env_quiet args_debug_empty world_registered
       = main env_quiet (args_debug_empty\<lparr>arg_debug := DebugAbsent\<rparr>) world_registered
   \<and> main env_quiet args_debug_empty world_registered
       = (case arg_compile args_debug_empty of
            None \<Rightarrow> (Inr (), log PrintHelp world_registered)
          | Some s \<Rightarrow> if truthy s then compile_file env_quiet s world_registered
                       else (Inr (), log PrintHelp world_registered))"
proof -
  have h: "arg_debug args_debug_empty = DebugAlias []" by (simp add: args_debug_empty_def)
  have h1: "\<not> arg_register args_debug_empty" by (simp add: args_debug_empty_def)
  have h2: "\<not> arg_list args_debug_empty" by (simp add: args_debug_empty_def)
  note t = empty_debug_alias_skips_debug [OF h, of env_quiet world_registered]
  show ?thesis
    by (rule conjI [OF h conjI [OF h1 conjI [OF h2 conjI [OF conjunct1 [OF t]
          mp [OF conjunct2 [OF t] conjI [OF h1 h2]]]]]])
qed

end
